theory Spec2Isabelle
  imports Main
begin

section \<open>Region Fixer: the scanning engine of \<open>regionfixer_core/scan.py\<close>\<close>

text \<open>
  The development embeds \<open>scan_chunk\<close>, \<open>scan_region_file\<close>,
  \<open>multiprocess_scan_regionfile\<close> and the result-consuming half of
  \<open>AsyncRegionsetScanner\<close>. Exceptions are values, the scanned object that the
  Python code mutates in place is passed along explicitly, and everything the code reads
  from outside (the region file reader, the clock, the interpreter's traceback) is a
  parameter.
\<close>

subsection \<open>Data\<close>

text \<open>Local chunk coordinates \<open>(x, z)\<close> and global chunk coordinates.\<close>

type_synonym coord = "nat \<times> nat"
type_synonym gcoord = "int \<times> int"

text \<open>
  Modelled from the spec: the chunk and region status constants of \<open>world.py\<close>
  (\<open>world.CHUNK_OK\<close>, ..., \<open>world.REGION_UNREADABLE\<close>), which the spec gives as two
  closed enumerations of pairwise different values.
\<close>

datatype chunk_status =
    CHUNK_NOT_CREATED
  | CHUNK_OK
  | CHUNK_CORRUPTED
  | CHUNK_WRONG_LOCATED
  | CHUNK_TOO_MANY_ENTITIES
  | CHUNK_SHARED_OFFSET

datatype region_status = REGION_OK | REGION_TOO_SMALL | REGION_UNREADABLE

text \<open>
  The per-slot status that the region reader keeps in \<open>region_file.metadata\<close>; the scan
  compares it with \<open>region.STATUS_CHUNK_OVERLAPPING\<close> only.
\<close>

datatype sector_status =
    STATUS_CHUNK_OVERLAPPING
  | STATUS_CHUNK_MISMATCHED_LENGTHS
  | STATUS_CHUNK_ZERO_LENGTH
  | STATUS_CHUNK_IN_HEADER
  | STATUS_CHUNK_OUT_OF_FILE
  | STATUS_CHUNK_OK
  | STATUS_CHUNK_NOT_CREATED

text \<open>
  Exceptions. \<open>frame\<close> is one entry of \<open>traceback.extract_tb\<close>: file, line, function,
  source text. An exception carries its class, its message (\<open>e.msg\<close>, \<open>str(e)\<close>) and the
  frames of its traceback.
\<close>

datatype exc_class =
    NoRegionHeader
  | IOError
  | InconceivedChunk
  | RegionHeaderError
  | ChunkDataError
  | ChunkHeaderError
  | KeyboardInterrupt
  | KeyError
  | OtherException string

type_synonym frame = "string \<times> nat \<times> string \<times> string"

record exception =
  exc_class :: exc_class
  exc_msg :: string
  exc_tb :: "frame list"

text \<open>\<open>sys.exc_info()\<close> with the traceback passed through \<open>extract_tb\<close>.\<close>

type_synonym exc_info = "exc_class \<times> string \<times> frame list"

definition sys_exc_info :: "exception \<Rightarrow> exc_info" where
  "sys_exc_info e = (exc_class e, exc_msg e, exc_tb e)"

text \<open>
  A tag of a compound of the decoded chunk, as the lookup by its name finds it:
  \<open>Tag v\<close> when the compound has the tag, with the value \<open>v\<close>; \<open>Missing msg tb\<close> when it
  has not. The lookup of a tag that the compound has not raises \<open>KeyError\<close>; the lookup
  is code of the reader of the tag tree, and the message \<open>msg\<close> and the frames \<open>tb\<close> of
  the traceback of that exception are given with the chunk.
\<close>

datatype 'a tag = Tag 'a | Missing string "frame list"

text \<open>\<open>compound[name]\<close>, for the tag \<open>t\<close> that the compound has or has not under the name.\<close>

definition tag_getitem :: "'a tag \<Rightarrow> exception + 'a" where
  "tag_getitem t =
     (case t of
        Tag v \<Rightarrow> Inr v
      | Missing msg tb \<Rightarrow> Inl \<lparr>exc_class = KeyError, exc_msg = msg, exc_tb = tb\<rparr>)"

text \<open>
  A decoded chunk, as far as the scan reads it: the compound \<open>Level\<close> with the declared
  position (\<open>chunk["Level"]["xPos"]\<close>, \<open>["zPos"]\<close>) and the entity list
  (\<open>chunk["Level"]["Entities"]\<close>). A chunk that decodes need not have these tags.
\<close>

type_synonym entity = string

record level =
  xPos :: "int tag"
  zPos :: "int tag"
  Entities :: "entity list tag"

record chunk =
  Level :: "level tag"

text \<open>A chunk record \<open>(num_entities, status)\<close>: \<open>TUPLE_NUM_ENTITIES = 0\<close>, \<open>TUPLE_STATUS = 1\<close>.\<close>

type_synonym chunk_record = "nat option \<times> chunk_status"

abbreviation TUPLE_NUM_ENTITIES :: "chunk_record \<Rightarrow> nat option" where
  "TUPLE_NUM_ENTITIES c \<equiv> fst c"

abbreviation TUPLE_STATUS :: "chunk_record \<Rightarrow> chunk_status" where
  "TUPLE_STATUS c \<equiv> snd c"

text \<open>
  The open region file (\<open>region.RegionFile\<close>): \<open>get_chunk\<close> returns a chunk or raises,
  \<open>metadata\<close> is a dictionary from local coordinates to the slot's status, kept as the
  list of its items in iteration order.
\<close>

record region_file =
  get_chunk :: "coord \<Rightarrow> exception + chunk"
  metadata :: "(coord \<times> sector_status) list"

text \<open>
  The scanned object (\<open>world.ScannedRegionFile\<close>), with the attributes the scan reads
  and writes. \<open>get_coords\<close> is what the method of that name returns, the position of the region.
\<close>

record scanned_region =
  path :: string
  filename :: string
  get_coords :: gcoord
  chunks :: "coord \<rightharpoonup> chunk_record"
  status :: region_status
  scan_time :: "int option"
  scanned :: bool
  chunk_count :: nat
  corrupted_chunks :: nat
  wrong_located_chunks :: nat
  entities_prob :: nat
  shared_offset :: nat

text \<open>
  Modelled from the spec: \<open>ScannedRegionFile.get_global_chunk_coords\<close> of \<open>world.py\<close>;
  the mapping from local to global coordinates is additive, region origin plus local
  offset, a region covering 32 by 32 chunks.
\<close>

definition get_global_chunk_coords :: "scanned_region \<Rightarrow> nat \<Rightarrow> nat \<Rightarrow> gcoord" where
  "get_global_chunk_coords r x z = (fst (get_coords r) * 32 + int x, snd (get_coords r) * 32 + int z)"

text \<open>
  Modelled from the spec: \<open>world.get_chunk_data_coords\<close>, which reads the coordinate a
  chunk declares for itself, the tags \<open>xPos\<close> and \<open>zPos\<close> of its compound \<open>Level\<close>. The
  lookup of a tag that the chunk has not raises.
\<close>

definition get_chunk_data_coords :: "chunk \<Rightarrow> exception + gcoord" where
  "get_chunk_data_coords c =
     (case tag_getitem (Level c) of
        Inl e \<Rightarrow> Inl e
      | Inr level \<Rightarrow>
          (case tag_getitem (xPos level) of
             Inl e \<Rightarrow> Inl e
           | Inr x \<Rightarrow>
               (case tag_getitem (zPos level) of
                  Inl e \<Rightarrow> Inl e
                | Inr z \<Rightarrow> Inr (x, z))))"

text \<open>\<open>chunk["Level"]["Entities"]\<close>, the entity list of which \<open>scan_chunk\<close> takes the length.\<close>

definition chunk_entities :: "chunk \<Rightarrow> exception + entity list" where
  "chunk_entities c =
     (case tag_getitem (Level c) of
        Inl e \<Rightarrow> Inl e
      | Inr level \<Rightarrow> tag_getitem (Entities level))"

subsection \<open>Decimal text of numbers, for the messages\<close>

function str_nat :: "nat \<Rightarrow> string" where
  "str_nat n =
     (if n < 10 then [''0123456789'' ! n]
      else str_nat (n div 10) @ [''0123456789'' ! (n mod 10)])"
  by pat_completeness auto
termination
  by (relation "measure id") auto

declare str_nat.simps [simp del]

definition str_int :: "int \<Rightarrow> string" where
  "str_int i = (if i < 0 then ''-'' @ str_nat (nat (- i)) else str_nat (nat i))"

subsection \<open>\<open>scan_chunk\<close>\<close>

text \<open>
  The local variables of \<open>scan_chunk\<close> at its \<open>return\<close>. \<open>status_text\<close> is assigned on
  every path and is not part of the returned value; \<open>scan_time\<close> and the reassigned
  \<open>global_coords\<close> are not read again and are left out.
\<close>

record chunk_locals =
  l_chunk :: "chunk option"
  l_data_coords :: "gcoord option"
  l_num_entities :: "nat option"
  l_status :: chunk_status
  l_status_text :: string

text \<open>
  The body of the \<open>try\<close> of \<open>scan_chunk\<close>: the chunk is decoded, its declared position
  and its entity list are read, and the status is chosen. \<open>Inl\<close> is an exception raised
  by one of the three reads.
\<close>

definition scan_chunk_try ::
  "region_file \<Rightarrow> coord \<Rightarrow> gcoord \<Rightarrow> int \<Rightarrow> exception + chunk_locals" where
  "scan_chunk_try region_file coords global_coords entity_limit =
     (case get_chunk region_file coords of
        Inl e \<Rightarrow> Inl e
      | Inr chunk \<Rightarrow>
          (case get_chunk_data_coords chunk of
             Inl e \<Rightarrow> Inl e
           | Inr data_coords \<Rightarrow>
               (case chunk_entities chunk of
                  Inl e \<Rightarrow> Inl e
                | Inr entities \<Rightarrow>
                    (let num_entities = length entities
                     in if data_coords \<noteq> global_coords then
                          Inr \<lparr>l_chunk = Some chunk, l_data_coords = Some data_coords,
                               l_num_entities = Some num_entities,
                               l_status = CHUNK_WRONG_LOCATED,
                               l_status_text = ''Mismatched coordinates (wrong located chunk).''\<rparr>
                        else if int num_entities > entity_limit then
                          Inr \<lparr>l_chunk = Some chunk, l_data_coords = Some data_coords,
                               l_num_entities = Some num_entities,
                               l_status = CHUNK_TOO_MANY_ENTITIES,
                               l_status_text =
                                 ''The chunks has too many entities (it has ''
                                 @ str_nat num_entities
                                 @ '', and it's more than the limit '' @ str_int entity_limit
                                 @ '')''\<rparr>
                        else
                          Inr \<lparr>l_chunk = Some chunk, l_data_coords = Some data_coords,
                               l_num_entities = Some num_entities, l_status = CHUNK_OK,
                               l_status_text = ''OK''\<rparr>))))"

text \<open>
  The \<open>except\<close> clauses of \<open>scan_chunk\<close>, for an exception \<open>e\<close> raised in the body of the
  \<open>try\<close>. An exception of a class without a clause, \<open>KeyError\<close> among them, leaves the
  function (\<open>Inl\<close>).
\<close>

definition scan_chunk_except :: "exception \<Rightarrow> exception + chunk_locals" where
  "scan_chunk_except e =
     (if exc_class e = InconceivedChunk then
        Inr \<lparr>l_chunk = None, l_data_coords = None, l_num_entities = None,
             l_status = CHUNK_NOT_CREATED, l_status_text = ''The chunk doesn't exist''\<rparr>
      else if exc_class e = RegionHeaderError then
        Inr \<lparr>l_chunk = None, l_data_coords = None, l_num_entities = None,
             l_status = CHUNK_CORRUPTED,
             l_status_text = ''Region header error: '' @ exc_msg e\<rparr>
      else if exc_class e = ChunkDataError then
        Inr \<lparr>l_chunk = None, l_data_coords = None, l_num_entities = None,
             l_status = CHUNK_CORRUPTED,
             l_status_text = ''Chunk data error: '' @ exc_msg e\<rparr>
      else if exc_class e = ChunkHeaderError then
        Inr \<lparr>l_chunk = None, l_data_coords = None, l_num_entities = None,
             l_status = CHUNK_CORRUPTED,
             l_status_text = ''Chunk herader error: '' @ exc_msg e\<rparr>
      else Inl e)"

text \<open>The \<open>try\<close> statement of \<open>scan_chunk\<close>: the body, and the clauses when it raises.\<close>

definition scan_chunk_locals ::
  "region_file \<Rightarrow> coord \<Rightarrow> gcoord \<Rightarrow> int \<Rightarrow> exception + chunk_locals" where
  "scan_chunk_locals region_file coords global_coords entity_limit =
     (case scan_chunk_try region_file coords global_coords entity_limit of
        Inl e \<Rightarrow> scan_chunk_except e
      | Inr l \<Rightarrow> Inr l)"

text \<open>
  The \<open>return\<close>: \<open>chunk, (num_entities, status) if status != CHUNK_NOT_CREATED else None\<close>,
  a pair whose second component is the conditional expression.
\<close>

definition scan_chunk ::
  "region_file \<Rightarrow> coord \<Rightarrow> gcoord \<Rightarrow> int \<Rightarrow> exception + (chunk option \<times> chunk_record option)" where
  "scan_chunk region_file coords global_coords entity_limit =
     (case scan_chunk_locals region_file coords global_coords entity_limit of
        Inl e \<Rightarrow> Inl e
      | Inr l \<Rightarrow>
          Inr (l_chunk l,
               if l_status l \<noteq> CHUNK_NOT_CREATED then Some (l_num_entities l, l_status l)
               else None))"

subsection \<open>\<open>scan_region_file\<close>\<close>

text \<open>
  What the scan reads from outside: the outcome of \<open>region.RegionFile(path)\<close>, the
  value of \<open>time()\<close>, and the frames that \<open>extract_tb\<close> gives for an exception raised
  in \<open>scan_region_file\<close> itself.
\<close>

record world =
  w_open :: "string \<Rightarrow> exception + region_file"
  w_time :: int
  w_traceback :: "frame list"

text \<open>
  Modelled from the spec: \<open>ScannedRegionFile.__getitem__\<close> and \<open>__setitem__\<close> of
  \<open>world.py\<close>; \<open>r[k]\<close> is the chunk record that the mapping \<open>r.chunks\<close> stores for the
  local coordinate \<open>k\<close>. Reading a key that is not stored raises \<open>KeyError\<close>, as the
  dictionary does; the message is the text of the key.
\<close>

definition getitem :: "frame list \<Rightarrow> scanned_region \<Rightarrow> coord \<Rightarrow> exception + chunk_record" where
  "getitem tb r k =
     (case chunks r k of
        None \<Rightarrow>
          Inl \<lparr>exc_class = KeyError,
               exc_msg = ''('' @ str_nat (fst k) @ '', '' @ str_nat (snd k) @ '')'',
               exc_tb = tb\<rparr>
      | Some c \<Rightarrow> Inr c)"

definition setitem :: "scanned_region \<Rightarrow> coord \<Rightarrow> chunk_record \<Rightarrow> scanned_region" where
  "setitem r k c = r\<lparr>chunks := (chunks r)(k \<mapsto> c)\<rparr>"

text \<open>
  The local variables of \<open>scan_region_file\<close> that change during the scan, the scanned
  object \<open>r\<close> among them, and the calls of \<open>world.delete_entities\<close> made so far.
  Modelled from the spec: \<open>world.delete_entities\<close> clears the entities of one chunk of
  the region file and is a side effect only; here it is the entry \<open>(x, z)\<close> appended to
  \<open>s_deleted\<close>.
\<close>

record scan_state =
  s_r :: scanned_region
  s_chunk_count :: nat
  s_corrupted :: nat
  s_wrong :: nat
  s_entities_prob :: nat
  s_deleted :: "coord list"

text \<open>
  One pass through the body of the inner \<open>for\<close> loop, at the local coordinate \<open>(x, z)\<close>.
  \<open>Inl\<close> is an exception leaving the loop, with the state at that moment.
\<close>

definition scan_slot ::
  "region_file \<Rightarrow> int \<Rightarrow> bool \<Rightarrow> coord \<Rightarrow> scan_state \<Rightarrow> exception \<times> scan_state + scan_state" where
  "scan_slot region_file entity_limit delete_entities xz st =
     (let g_coords = get_global_chunk_coords (s_r st) (fst xz) (snd xz)
      in case scan_chunk region_file xz g_coords entity_limit of
           Inl e \<Rightarrow> Inl (e, st)
         | Inr (chunk, None) \<Rightarrow> Inr st
         | Inr (chunk, Some c) \<Rightarrow>
             (let st1 = st\<lparr>s_r := (s_r st)\<lparr>chunks := (chunks (s_r st))(xz \<mapsto> c)\<rparr>,
                           s_chunk_count := s_chunk_count st + 1\<rparr>
              in if TUPLE_STATUS c = CHUNK_OK then Inr st1
                 else if TUPLE_STATUS c = CHUNK_TOO_MANY_ENTITIES then
                   (if delete_entities then
                      Inr (st1\<lparr>s_deleted := s_deleted st1 @ [xz],
                               s_r := (s_r st1)\<lparr>chunks := (chunks (s_r st1))(xz \<mapsto> (Some 0, CHUNK_OK))\<rparr>\<rparr>)
                    else Inr (st1\<lparr>s_entities_prob := s_entities_prob st1 + 1\<rparr>))
                 else if TUPLE_STATUS c = CHUNK_CORRUPTED then
                   Inr (st1\<lparr>s_corrupted := s_corrupted st1 + 1\<rparr>)
                 else if TUPLE_STATUS c = CHUNK_WRONG_LOCATED then
                   Inr (st1\<lparr>s_wrong := s_wrong st1 + 1\<rparr>)
                 else Inr st1))"

text \<open>The two nested loops, over the coordinates in the order they are visited.\<close>

fun scan_loop ::
  "region_file \<Rightarrow> int \<Rightarrow> bool \<Rightarrow> coord list \<Rightarrow> scan_state \<Rightarrow> exception \<times> scan_state + scan_state" where
  "scan_loop region_file entity_limit delete_entities [] st = Inr st"
| "scan_loop region_file entity_limit delete_entities (xz # rest) st =
     (case scan_slot region_file entity_limit delete_entities xz st of
        Inl err \<Rightarrow> Inl err
      | Inr st' \<Rightarrow> scan_loop region_file entity_limit delete_entities rest st')"

text \<open>\<open>for x in range(32): for z in range(32)\<close>.\<close>

definition raster :: "coord list" where
  "raster = concat (map (\<lambda>x. map (\<lambda>z. (x, z)) [0..<32]) [0..<32])"

text \<open>
  The list comprehension \<open>sharing\<close>: the keys of \<open>metadata\<close>, in order, whose status is
  overlapping and whose record \<open>r[k]\<close> is wrong located. \<open>and\<close> evaluates \<open>r[k]\<close> only
  for an overlapping key.
\<close>

fun sharing ::
  "frame list \<Rightarrow> (coord \<times> sector_status) list \<Rightarrow> scanned_region \<Rightarrow> exception + coord list" where
  "sharing tb [] r = Inr []"
| "sharing tb ((k, m) # items) r =
     (if m = STATUS_CHUNK_OVERLAPPING then
        (case getitem tb r k of
           Inl e \<Rightarrow> Inl e
         | Inr c \<Rightarrow>
             (case sharing tb items r of
                Inl e \<Rightarrow> Inl e
              | Inr ks \<Rightarrow> Inr (if TUPLE_STATUS c = CHUNK_WRONG_LOCATED then k # ks else ks)))
      else sharing tb items r)"

text \<open>\<open>for k in sharing: r[k] = (r[k][TUPLE_NUM_ENTITIES], CHUNK_SHARED_OFFSET); shared_counter += 1\<close>.\<close>

fun share_loop ::
  "frame list \<Rightarrow> coord list \<Rightarrow> scanned_region \<Rightarrow> nat \<Rightarrow> exception \<times> scanned_region + scanned_region \<times> nat" where
  "share_loop tb [] r shared_counter = Inr (r, shared_counter)"
| "share_loop tb (k # ks) r shared_counter =
     (case getitem tb r k of
        Inl e \<Rightarrow> Inl (e, r)
      | Inr c \<Rightarrow>
          share_loop tb ks (setitem r k (TUPLE_NUM_ENTITIES c, CHUNK_SHARED_OFFSET))
            (shared_counter + 1))"

text \<open>
  The post-pass for chunks that share their offset: the list \<open>sharing\<close> is built
  first, then every record in it is replaced. \<open>Inl\<close> carries the exception and the
  scanned object as it is when the exception is raised.
\<close>

definition post_pass ::
  "frame list \<Rightarrow> (coord \<times> sector_status) list \<Rightarrow> scanned_region
     \<Rightarrow> exception \<times> scanned_region + scanned_region \<times> nat" where
  "post_pass tb md r =
     (case sharing tb md r of
        Inl e \<Rightarrow> Inl (e, r)
      | Inr ks \<Rightarrow> share_loop tb ks r 0)"

text \<open>The state when the loops start: the counters of problems are zero.\<close>

definition init_state :: "scanned_region \<Rightarrow> scan_state" where
  "init_state r =
     \<lparr>s_r = r, s_chunk_count = 0, s_corrupted = 0, s_wrong = 0, s_entities_prob = 0,
      s_deleted = []\<rparr>"

text \<open>
  The body of the outer \<open>try\<close> of \<open>scan_region_file\<close>: \<open>Inr\<close> is the state at its
  \<open>return r\<close>, \<open>Inl\<close> an exception that reaches the outer handlers, with the state at
  the moment it was raised.
\<close>

definition scan_region_try ::
  "world \<Rightarrow> scanned_region \<Rightarrow> int \<Rightarrow> bool \<Rightarrow> exception \<times> scan_state + scan_state" where
  "scan_region_try w scanned_regionfile_obj entity_limit delete_entities =
     (let st0 = init_state scanned_regionfile_obj
      in case w_open w (path scanned_regionfile_obj) of
           Inl e \<Rightarrow>
             (if exc_class e = NoRegionHeader then
                Inr (st0\<lparr>s_r := scanned_regionfile_obj
                          \<lparr>status := REGION_TOO_SMALL, scan_time := Some (w_time w),
                           scanned := True\<rparr>\<rparr>)
              else if exc_class e = IOError then
                Inr (st0\<lparr>s_r := scanned_regionfile_obj
                          \<lparr>status := REGION_UNREADABLE, scan_time := Some (w_time w),
                           scanned := True\<rparr>\<rparr>)
              else Inl (e, st0))
         | Inr region_file \<Rightarrow>
             (case scan_loop region_file entity_limit delete_entities raster st0 of
                Inl err \<Rightarrow> Inl err
              | Inr st \<Rightarrow>
                  (case post_pass (w_traceback w) (metadata region_file) (s_r st) of
                     Inl (e, r') \<Rightarrow> Inl (e, st\<lparr>s_r := r'\<rparr>)
                   | Inr (r', shared_counter) \<Rightarrow>
                       Inr (st\<lparr>s_r := r'
                                \<lparr>chunk_count := s_chunk_count st,
                                 corrupted_chunks := s_corrupted st,
                                 wrong_located_chunks := s_wrong st,
                                 entities_prob := s_entities_prob st,
                                 shared_offset := shared_counter,
                                 scan_time := Some (w_time w),
                                 status := REGION_OK,
                                 scanned := True\<rparr>\<rparr>))))"

text \<open>
  What a worker puts on the queue: the scanned object, or the tuple
  \<open>(scanned_regionfile_obj, (except_type, except_class, extract_tb(tb)))\<close>.
\<close>

datatype queue_item =
    Result scanned_region
  | FaultTuple scanned_region exc_info

text \<open>How a call of \<open>scan_region_file\<close> ends: it returns, or \<open>sys.exit(1)\<close> raises.\<close>

datatype scan_exit =
    Return queue_item
  | SystemExit int

text \<open>
  \<open>scan_region_file\<close>: the \<open>try\<close> body with its two handlers. The second component is
  the list of chunks whose entities were deleted, in order.
\<close>

definition scan_region_file ::
  "world \<Rightarrow> scanned_region \<Rightarrow> int \<Rightarrow> bool \<Rightarrow> scan_exit \<times> coord list" where
  "scan_region_file w scanned_regionfile_obj entity_limit delete_entities =
     (case scan_region_try w scanned_regionfile_obj entity_limit delete_entities of
        Inr st \<Rightarrow> (Return (Result (s_r st)), s_deleted st)
      | Inl (e, st) \<Rightarrow>
          (if exc_class e = KeyboardInterrupt then (SystemExit 1, s_deleted st)
           else (Return (FaultTuple (s_r st) (sys_exc_info e)), s_deleted st)))"

subsection \<open>The worker task\<close>

text \<open>
  The attributes that \<open>_mp_pool_init\<close> attaches to \<open>multiprocess_scan_regionfile\<close>; the
  queue is the list of the items put and not yet taken, oldest first.
\<close>

record mp_attrs =
  mp_q :: "queue_item list"
  mp_entity_limit :: int
  mp_remove_entities :: bool

definition q_put :: "queue_item list \<Rightarrow> queue_item \<Rightarrow> queue_item list" where
  "q_put q r = q @ [r]"

text \<open>
  \<open>multiprocess_scan_regionfile\<close>: \<open>None\<close> when the task returns, \<open>Some n\<close> when
  \<open>SystemExit(n)\<close> leaves it; with the attributes (the queue) and the deletions after it.
\<close>

definition multiprocess_scan_regionfile ::
  "world \<Rightarrow> mp_attrs \<Rightarrow> scanned_region \<Rightarrow> int option \<times> mp_attrs \<times> coord list" where
  "multiprocess_scan_regionfile w attrs region_file =
     (case scan_region_file w region_file (mp_entity_limit attrs) (mp_remove_entities attrs) of
        (Return r, dels) \<Rightarrow> (None, attrs\<lparr>mp_q := q_put (mp_q attrs) r\<rparr>, dels)
      | (SystemExit n, dels) \<Rightarrow> (Some n, attrs, dels))"

subsection \<open>The scan session: \<open>AsyncRegionsetScanner\<close>\<close>

text \<open>
  Modelled from the spec: the regionset of \<open>world.py\<close>, the authoritative collection
  that is keyed by region coordinate; \<open>regionset[key] = r\<close> overwrites the entry at that
  key, \<open>get_name()\<close> is its name.
\<close>

record regionset =
  get_name :: string
  regions :: "gcoord \<rightharpoonup> scanned_region"

definition regionset_setitem :: "regionset \<Rightarrow> gcoord \<Rightarrow> scanned_region \<Rightarrow> regionset" where
  "regionset_setitem rs key r = rs\<lparr>regions := (regions rs)(key \<mapsto> r)\<rparr>"

text \<open>
  The attributes of the scanner that the consuming methods use. \<open>a_ready\<close> is what
  \<open>self._results.ready()\<close> answers.
\<close>

record scanner =
  a_regionset :: regionset
  a_queue :: "queue_item list"
  a_ready :: bool
  a_str_last_scanned :: "string option"

record child_process_exception =
  cpe_scanned_file :: scanned_region
  cpe_exc_type :: exc_class
  cpe_exc_class :: string
  cpe_tb_text :: "frame list"

text \<open>\<open>ChildProcessException(r[0], r[1][0], r[1][1], r[1][2])\<close>.\<close>

definition ChildProcessException :: "scanned_region \<Rightarrow> exc_info \<Rightarrow> child_process_exception" where
  "ChildProcessException r0 r1 =
     \<lparr>cpe_scanned_file = r0, cpe_exc_type = fst r1, cpe_exc_class = fst (snd r1),
      cpe_tb_text = snd (snd r1)\<rparr>"

text \<open>
  The queue operations of the consumer. \<open>q.get()\<close> waits for an item when there is none:
  \<open>None\<close> stands for a call that does not return.
\<close>

definition q_empty :: "queue_item list \<Rightarrow> bool" where
  "q_empty q = (q = [])"

definition q_get :: "queue_item list \<Rightarrow> (queue_item \<times> queue_item list) option" where
  "q_get q = (case q of [] \<Rightarrow> None | r # rest \<Rightarrow> Some (r, rest))"

text \<open>\<open>isinstance(r, tuple)\<close>.\<close>

fun is_tuple :: "queue_item \<Rightarrow> bool" where
  "is_tuple (FaultTuple r0 r1) = True"
| "is_tuple (Result r) = False"

datatype 'a outcome =
    Blocked
  | Raised child_process_exception
  | Returned 'a

definition get_last_result :: "scanner \<Rightarrow> scanned_region option outcome \<times> scanner" where
  "get_last_result self =
     (let q = a_queue self
      in if \<not> q_empty q then
           (case q_get q of
              None \<Rightarrow> (Blocked, self)
            | Some (r, q') \<Rightarrow>
                (case r of
                   FaultTuple r0 r1 \<Rightarrow>
                     (Raised (ChildProcessException r0 r1), self\<lparr>a_queue := q'\<rparr>)
                 | Result res \<Rightarrow>
                     (Returned (Some res),
                      self\<lparr>a_queue := q',
                           a_regionset := regionset_setitem (a_regionset self) (get_coords res) res,
                           a_str_last_scanned :=
                             Some (get_name (a_regionset self) @ '': '' @ filename res)\<rparr>)))
         else (Returned None, self))"

text \<open>The property \<open>finished\<close>: \<open>self._results.ready() and self.queue.empty()\<close>.\<close>

definition finished :: "scanner \<Rightarrow> bool" where
  "finished self = (a_ready self \<and> q_empty (a_queue self))"

text \<open>The condition of the \<open>while\<close> of \<open>results\<close>, read at one moment.\<close>

definition results_cond :: "scanner \<Rightarrow> bool" where
  "results_cond self = (\<not> q_empty (a_queue self) \<or> \<not> finished self)"

text \<open>
  The generator \<open>results\<close>, one queue or pool operation at a time, so that the workers
  and the pool can act between any two of them. The control points:
  \<^item> \<open>AtWhile\<close>: \<open>q.empty()\<close> of the loop condition;
  \<^item> \<open>AtReady\<close>: \<open>self._results.ready()\<close> of \<open>finished\<close>;
  \<^item> \<open>AtEmpty\<close>: \<open>self.queue.empty()\<close> of \<open>finished\<close>;
  \<^item> \<open>AtSleep\<close>: \<open>sleep(0.0001)\<close>;
  \<^item> \<open>AtIf\<close>: \<open>if not q.empty()\<close>;
  \<^item> \<open>AtGet\<close>: \<open>q.get()\<close>, the tuple test, the overwrite and the \<open>yield\<close>;
  \<^item> \<open>Done\<close>: the loop has ended; \<open>Failed\<close>: \<open>ChildProcessException\<close> was raised.
\<close>

datatype results_pc = AtWhile | AtReady | AtEmpty | AtSleep | AtIf | AtGet | Done | Failed

record gen_state =
  g_self :: scanner
  g_pc :: results_pc
  g_yielded :: "scanned_region list"
  g_raised :: "child_process_exception option"

definition results_next :: "gen_state \<Rightarrow> gen_state" where
  "results_next s =
     (let self = g_self s; q = a_queue self
      in case g_pc s of
           AtWhile \<Rightarrow> if \<not> q_empty q then s\<lparr>g_pc := AtSleep\<rparr> else s\<lparr>g_pc := AtReady\<rparr>
         | AtReady \<Rightarrow> if a_ready self then s\<lparr>g_pc := AtEmpty\<rparr> else s\<lparr>g_pc := AtSleep\<rparr>
         | AtEmpty \<Rightarrow> if q_empty q then s\<lparr>g_pc := Done\<rparr> else s\<lparr>g_pc := AtSleep\<rparr>
         | AtSleep \<Rightarrow> s\<lparr>g_pc := AtIf\<rparr>
         | AtIf \<Rightarrow> if \<not> q_empty q then s\<lparr>g_pc := AtGet\<rparr> else s\<lparr>g_pc := AtWhile\<rparr>
         | AtGet \<Rightarrow>
             (case q_get q of
                None \<Rightarrow> s
              | Some (r, q') \<Rightarrow>
                  (case r of
                     FaultTuple r0 r1 \<Rightarrow>
                       s\<lparr>g_self := self\<lparr>a_queue := q'\<rparr>, g_pc := Failed,
                         g_raised := Some (ChildProcessException r0 r1)\<rparr>
                   | Result res \<Rightarrow>
                       s\<lparr>g_self := self\<lparr>a_queue := q',
                                        a_regionset :=
                                          regionset_setitem (a_regionset self) (get_coords res) res\<rparr>,
                         g_pc := AtWhile,
                         g_yielded := g_yielded s @ [res]\<rparr>))
         | Done \<Rightarrow> s
         | Failed \<Rightarrow> s)"

text \<open>
  What can happen between two operations of the consumer: a worker puts an item, or
  the pool's result becomes ready. A schedule is a list of events in the order they
  take place.
\<close>

datatype event = WorkerPut queue_item | PoolReady | Consumer

fun apply_event :: "event \<Rightarrow> gen_state \<Rightarrow> gen_state" where
  "apply_event (WorkerPut r) s = s\<lparr>g_self := (g_self s)\<lparr>a_queue := q_put (a_queue (g_self s)) r\<rparr>\<rparr>"
| "apply_event PoolReady s = s\<lparr>g_self := (g_self s)\<lparr>a_ready := True\<rparr>\<rparr>"
| "apply_event Consumer s = results_next s"

fun run :: "event list \<Rightarrow> gen_state \<Rightarrow> gen_state" where
  "run [] s = s"
| "run (ev # evs) s = run evs (apply_event ev s)"

text \<open>The items that the workers put during a schedule, in order.\<close>

fun puts :: "event list \<Rightarrow> queue_item list" where
  "puts [] = []"
| "puts (WorkerPut r # evs) = r # puts evs"
| "puts (PoolReady # evs) = puts evs"
| "puts (Consumer # evs) = puts evs"

text \<open>The generator when it is created: at the loop condition, nothing yielded.\<close>

definition results_start :: "scanner \<Rightarrow> gen_state" where
  "results_start self = \<lparr>g_self = self, g_pc = AtWhile, g_yielded = [], g_raised = None\<rparr>"

subsection \<open>Derived notions used in the statements\<close>

text \<open>An exception class for which \<open>scan_chunk\<close> has a handler.\<close>

definition handled :: "exception \<Rightarrow> bool" where
  "handled e =
     (exc_class e = InconceivedChunk \<or> exc_class e = RegionHeaderError
      \<or> exc_class e = ChunkDataError \<or> exc_class e = ChunkHeaderError)"

text \<open>
  The record that \<open>scan_chunk\<close> returns for the slot \<open>k\<close> of the region \<open>r\<close>
  (\<open>None\<close> when it returns no record or raises), and the status in it.
\<close>

definition slot_record :: "region_file \<Rightarrow> scanned_region \<Rightarrow> int \<Rightarrow> coord \<Rightarrow> chunk_record option" where
  "slot_record rf r el k =
     (case scan_chunk rf k (get_global_chunk_coords r (fst k) (snd k)) el of
        Inl e \<Rightarrow> None
      | Inr res \<Rightarrow> snd res)"

definition slot_status :: "region_file \<Rightarrow> scanned_region \<Rightarrow> int \<Rightarrow> coord \<Rightarrow> chunk_status option" where
  "slot_status rf r el k = map_option snd (slot_record rf r el k)"

text \<open>
  The record that the loop body leaves in the slot when \<open>scan_chunk\<close> returned \<open>c\<close>:
  \<open>(0, CHUNK_OK)\<close> after a deletion of entities, \<open>c\<close> itself otherwise.
\<close>

definition stored :: "bool \<Rightarrow> chunk_record \<Rightarrow> chunk_record" where
  "stored delete_entities c =
     (if TUPLE_STATUS c = CHUNK_TOO_MANY_ENTITIES \<and> delete_entities then (Some 0, CHUNK_OK) else c)"

text \<open>The slot \<open>k\<close> is absent: decoding it raises \<open>InconceivedChunk\<close>.\<close>

definition absent :: "region_file \<Rightarrow> coord \<Rightarrow> bool" where
  "absent rf k = (case get_chunk rf k of Inl e \<Rightarrow> exc_class e = InconceivedChunk | Inr c \<Rightarrow> False)"

text \<open>
  The item \<open>(k, m)\<close> of the metadata passes the filter of the list comprehension
  \<open>sharing\<close>: overlapping, and the record stored for \<open>k\<close> is wrong located.
\<close>

definition shares :: "scanned_region \<Rightarrow> coord \<times> sector_status \<Rightarrow> bool" where
  "shares r km =
     (snd km = STATUS_CHUNK_OVERLAPPING
      \<and> map_option snd (chunks r (fst km)) = Some CHUNK_WRONG_LOCATED)"

text \<open>The keys of the metadata that carry the overlap flag.\<close>

definition overlapping :: "region_file \<Rightarrow> coord set" where
  "overlapping rf = {k. (k, STATUS_CHUNK_OVERLAPPING) \<in> set (metadata rf)}"

subsection \<open>Example inputs\<close>

definition ex_exc :: "exc_class \<Rightarrow> string \<Rightarrow> exception" where
  "ex_exc c m = \<lparr>exc_class = c, exc_msg = m, exc_tb = [(''region.py'', 1, ''get_chunk'', ''raise'')]\<rparr>"

definition ex_chunk :: "gcoord \<Rightarrow> nat \<Rightarrow> chunk" where
  "ex_chunk g n =
     \<lparr>Level = Tag \<lparr>xPos = Tag (fst g), zPos = Tag (snd g), Entities = Tag (replicate n ''Pig'')\<rparr>\<rparr>"

text \<open>A chunk that declares its position and has no tag \<open>Entities\<close>.\<close>

definition ex_chunk_untagged :: "gcoord \<Rightarrow> chunk" where
  "ex_chunk_untagged g =
     \<lparr>Level = Tag \<lparr>xPos = Tag (fst g), zPos = Tag (snd g),
                   Entities = Missing ''Tag Entities does not exist''
                     [(''nbt.py'', 1, ''__getitem__'', ''raise KeyError'')]\<rparr>\<rparr>"

text \<open>
  A region whose first five slots hold: a chunk declaring the position (5, 5), with
  three entities; a chunk in its place with three entities; a slot whose decoding
  fails; a chunk in its place without entities; a chunk declaring (9, 9). Every other
  slot is absent. The slots (0, 0) and (0, 3) carry the overlap flag.
\<close>

definition ex_get_chunk :: "coord \<Rightarrow> exception + chunk" where
  "ex_get_chunk k =
     (if k = (0, 0) then Inr (ex_chunk (5, 5) 3)
      else if k = (0, 1) then Inr (ex_chunk (0, 1) 3)
      else if k = (0, 2) then Inl (ex_exc RegionHeaderError ''bad offset'')
      else if k = (0, 3) then Inr (ex_chunk (0, 3) 0)
      else if k = (0, 4) then Inr (ex_chunk (9, 9) 0)
      else Inl (ex_exc InconceivedChunk ''no chunk''))"

definition ex_metadata :: "(coord \<times> sector_status) list" where
  "ex_metadata =
     [((0, 0), STATUS_CHUNK_OVERLAPPING), ((0, 1), STATUS_CHUNK_OK),
      ((0, 2), STATUS_CHUNK_OUT_OF_FILE), ((0, 3), STATUS_CHUNK_OVERLAPPING),
      ((0, 4), STATUS_CHUNK_OK), ((0, 5), STATUS_CHUNK_NOT_CREATED)]"

definition ex_region_file :: region_file where
  "ex_region_file = \<lparr>get_chunk = ex_get_chunk, metadata = ex_metadata\<rparr>"

text \<open>The same region with the overlap flag on the absent slot (0, 7) as well.\<close>

definition ex_region_file_flagged :: region_file where
  "ex_region_file_flagged =
     \<lparr>get_chunk = ex_get_chunk,
      metadata = ex_metadata @ [((0, 6), STATUS_CHUNK_OK), ((0, 7), STATUS_CHUNK_OVERLAPPING)]\<rparr>"

text \<open>The same region, where the chunk in the slot (0, 1) has no tag \<open>Entities\<close>.\<close>

definition ex_region_file_untagged :: region_file where
  "ex_region_file_untagged =
     \<lparr>get_chunk = (\<lambda>k. if k = (0, 1) then Inr (ex_chunk_untagged (0, 1)) else ex_get_chunk k),
      metadata = ex_metadata\<rparr>"

text \<open>The same region, where decoding the slot (0, 2) raises an exception without handler.\<close>

definition ex_region_file_raising :: region_file where
  "ex_region_file_raising =
     \<lparr>get_chunk = (\<lambda>k. if k = (0, 2) then Inl (ex_exc (OtherException ''ValueError'') ''bad tag'')
                        else ex_get_chunk k),
      metadata = ex_metadata\<rparr>"

definition ex_r :: scanned_region where
  "ex_r =
     \<lparr>path = ''r.0.0.mca'', filename = ''r.0.0.mca'', get_coords = (0, 0),
      chunks = Map.empty, status = REGION_OK, scan_time = None, scanned = False,
      chunk_count = 0, corrupted_chunks = 0, wrong_located_chunks = 0, entities_prob = 0,
      shared_offset = 0\<rparr>"

definition ex_tb :: "frame list" where
  "ex_tb = [(''scan.py'', 659, ''scan_region_file'', ''sharing = [k for k in metadata if ('')]"

definition ex_world :: "exception + region_file \<Rightarrow> world" where
  "ex_world opened = \<lparr>w_open = (\<lambda>p. opened), w_time = 1000, w_traceback = ex_tb\<rparr>"

definition ex_prefix :: "coord list" where
  "ex_prefix = [(0, 0), (0, 1), (0, 2), (0, 3), (0, 4)]"

definition ex_rest :: "coord list" where
  "ex_rest = map (\<lambda>z. (0, z)) [5..<32] @ concat (map (\<lambda>x. map (\<lambda>z. (x, z)) [0..<32]) [1..<32])"

definition ex_scanner :: "queue_item list \<Rightarrow> scanner" where
  "ex_scanner q =
     \<lparr>a_regionset = \<lparr>get_name = ''overworld'', regions = Map.empty\<rparr>, a_queue = q,
      a_ready = False, a_str_last_scanned = None\<rparr>"

text \<open>
  The state of the scan of the example region after the loops, with the entity limit 2:
  five slots stored, of which one corrupted and two wrong located; the slot (0, 1) has
  too many entities.
\<close>

definition ex_state :: "bool \<Rightarrow> scan_state" where
  "ex_state de =
     \<lparr>s_r = ex_r\<lparr>chunks :=
              [(0, 0) \<mapsto> (Some 3, CHUNK_WRONG_LOCATED),
               (0, 1) \<mapsto> (if de then (Some 0, CHUNK_OK) else (Some 3, CHUNK_TOO_MANY_ENTITIES)),
               (0, 2) \<mapsto> (None, CHUNK_CORRUPTED),
               (0, 3) \<mapsto> (Some 0, CHUNK_OK),
               (0, 4) \<mapsto> (Some 0, CHUNK_WRONG_LOCATED)]\<rparr>,
      s_chunk_count = 5, s_corrupted = 1, s_wrong = 2,
      s_entities_prob = (if de then 0 else 1),
      s_deleted = (if de then [(0, 1)] else [])\<rparr>"

text \<open>The state of that scan when it has passed the slots (0, 0) and (0, 1) only.\<close>

definition ex_state_partial :: scan_state where
  "ex_state_partial =
     \<lparr>s_r = ex_r\<lparr>chunks :=
              [(0, 0) \<mapsto> (Some 3, CHUNK_WRONG_LOCATED),
               (0, 1) \<mapsto> (Some 3, CHUNK_TOO_MANY_ENTITIES)]\<rparr>,
      s_chunk_count = 2, s_corrupted = 0, s_wrong = 1, s_entities_prob = 1, s_deleted = []\<rparr>"

text \<open>
  A schedule in which the pool's result becomes ready before the worker puts its
  result: the consumer finds the queue empty and the pool busy, then the pool becomes
  ready, then the worker puts its item, and the consumer goes on up to the last test
  of \<open>finished\<close>.
\<close>

definition ex_schedule :: "event list" where
  "ex_schedule =
     [Consumer, Consumer, PoolReady, WorkerPut (Result ex_r),
      Consumer, Consumer, Consumer, Consumer, Consumer]"

section \<open>Properties\<close>

subsection \<open>The order of the scan\<close>

lemma upt_5: "[0..<5] = [0, 1, 2, 3, 4::nat]"
  by (simp add: upt_rec)

lemma raster_split: "raster = ex_prefix @ ex_rest"
proof -
  have a: "[0..<32] = (0::nat) # [1..<32]"
    by (simp add: upt_conv_Cons)
  have b: "[0..<32] = [0..<5] @ [5..<(32::nat)]"
    using upt_add_eq_append [of 0 5 27] by simp
  have "raster = map (\<lambda>z. (0, z)) [0..<32] @ concat (map (\<lambda>x. map (\<lambda>z. (x, z)) [0..<32]) [1..<32])"
    unfolding raster_def by (subst a) simp
  also have "map (\<lambda>z. (0::nat, z)) [0..<32] = map (\<lambda>z. (0, z)) [0..<5] @ map (\<lambda>z. (0, z)) [5..<(32::nat)]"
    by (subst b) simp
  finally show ?thesis
    by (simp add: ex_prefix_def ex_rest_def upt_5)
qed

lemma ex_rest_mem: "k \<in> set ex_rest \<Longrightarrow> k \<notin> set ex_prefix"
  by (auto simp: ex_rest_def ex_prefix_def)

lemma set_raster: "set raster = {k. fst k < 32 \<and> snd k < 32}"
  by (auto simp: raster_def)

lemma length_raster: "length raster = 1024"
  by (simp add: raster_def length_concat comp_def sum_list_triv)

lemma distinct_raster: "distinct raster"
  unfolding raster_def
  by (rule distinct_concat) (auto simp: distinct_map inj_on_def)

subsection \<open>One chunk\<close>

lemma tag_getitem_KeyError: "tag_getitem t = Inl e \<Longrightarrow> exc_class e = KeyError"
  by (cases t) (auto simp: tag_getitem_def)

lemma get_chunk_data_coords_KeyError:
  "get_chunk_data_coords ch = Inl e \<Longrightarrow> exc_class e = KeyError"
  unfolding get_chunk_data_coords_def
  by (auto split: sum.splits dest: tag_getitem_KeyError)

lemma chunk_entities_KeyError: "chunk_entities ch = Inl e \<Longrightarrow> exc_class e = KeyError"
  unfolding chunk_entities_def
  by (auto split: sum.splits dest: tag_getitem_KeyError)

lemma scan_chunk_except_KeyError: "exc_class e = KeyError \<Longrightarrow> scan_chunk_except e = Inl e"
  by (simp add: scan_chunk_except_def)

lemma scan_chunk_undecoded:
  assumes "get_chunk rf k = Inl e"
  shows "scan_chunk_locals rf k g el = scan_chunk_except e"
  unfolding scan_chunk_locals_def scan_chunk_try_def assms by simp

lemma scan_chunk_decoded_case:
  assumes "get_chunk rf k = Inr ch"
  shows "scan_chunk rf k g el =
     (case get_chunk_data_coords ch of
        Inl e \<Rightarrow> Inl e
      | Inr data_coords \<Rightarrow>
          (case chunk_entities ch of
             Inl e \<Rightarrow> Inl e
           | Inr entities \<Rightarrow>
               Inr (Some ch,
                    Some (Some (length entities),
                          if data_coords \<noteq> g then CHUNK_WRONG_LOCATED
                          else if int (length entities) > el then CHUNK_TOO_MANY_ENTITIES
                          else CHUNK_OK))))"
proof (cases "get_chunk_data_coords ch")
  case (Inl e)
  have "scan_chunk_locals rf k g el = scan_chunk_except e"
    by (simp add: scan_chunk_locals_def scan_chunk_try_def assms Inl)
  also have "\<dots> = Inl e"
    by (rule scan_chunk_except_KeyError) (rule get_chunk_data_coords_KeyError [OF Inl])
  finally show ?thesis
    unfolding scan_chunk_def Inl by simp
next
  case dc: (Inr data_coords)
  show ?thesis
  proof (cases "chunk_entities ch")
    case (Inl e)
    have "scan_chunk_locals rf k g el = scan_chunk_except e"
      by (simp add: scan_chunk_locals_def scan_chunk_try_def assms dc Inl)
    also have "\<dots> = Inl e"
      by (rule scan_chunk_except_KeyError) (rule chunk_entities_KeyError [OF Inl])
    finally show ?thesis
      unfolding scan_chunk_def dc Inl by simp
  next
    case (Inr entities)
    have "scan_chunk_try rf k g el =
            Inr \<lparr>l_chunk = Some ch, l_data_coords = Some data_coords,
                 l_num_entities = Some (length entities),
                 l_status =
                   (if data_coords \<noteq> g then CHUNK_WRONG_LOCATED
                    else if int (length entities) > el then CHUNK_TOO_MANY_ENTITIES
                    else CHUNK_OK),
                 l_status_text =
                   (if data_coords \<noteq> g then ''Mismatched coordinates (wrong located chunk).''
                    else if int (length entities) > el then
                      ''The chunks has too many entities (it has '' @ str_nat (length entities)
                      @ '', and it's more than the limit '' @ str_int el @ '')''
                    else ''OK'')\<rparr>"
      by (simp add: scan_chunk_try_def assms dc Inr Let_def)
    then show ?thesis
      unfolding scan_chunk_def scan_chunk_locals_def dc Inr by simp
  qed
qed

lemma scan_chunk_decoded_eq:
  assumes "get_chunk rf k = Inr ch"
    and "get_chunk_data_coords ch = Inr data_coords"
    and "chunk_entities ch = Inr entities"
  shows "scan_chunk rf k g el =
     Inr (Some ch,
          Some (Some (length entities),
                if data_coords \<noteq> g then CHUNK_WRONG_LOCATED
                else if int (length entities) > el then CHUNK_TOO_MANY_ENTITIES
                else CHUNK_OK))"
  unfolding scan_chunk_decoded_case [OF assms(1)] assms(2,3) by simp

lemma scan_chunk_absent_eq:
  assumes "get_chunk rf k = Inl e" and "exc_class e = InconceivedChunk"
  shows "scan_chunk rf k g el = Inr (None, None)"
  using assms(2) unfolding scan_chunk_def scan_chunk_undecoded [OF assms(1)] scan_chunk_except_def
  by simp

lemma scan_chunk_corrupted_eq:
  assumes "get_chunk rf k = Inl e"
    and "exc_class e = RegionHeaderError \<or> exc_class e = ChunkDataError \<or> exc_class e = ChunkHeaderError"
  shows "scan_chunk rf k g el = Inr (None, Some (None, CHUNK_CORRUPTED))"
  using assms(2) unfolding scan_chunk_def scan_chunk_undecoded [OF assms(1)] scan_chunk_except_def
  by auto

lemma scan_chunk_raises_eq:
  assumes "get_chunk rf k = Inl e" and "\<not> handled e"
  shows "scan_chunk rf k g el = Inl e"
  using assms(2)
  unfolding scan_chunk_def scan_chunk_undecoded [OF assms(1)] scan_chunk_except_def handled_def
  by simp

lemma handled_cases:
  "handled e \<Longrightarrow>
   exc_class e = InconceivedChunk
   \<or> (exc_class e = RegionHeaderError \<or> exc_class e = ChunkDataError \<or> exc_class e = ChunkHeaderError)"
  unfolding handled_def by blast

lemma scan_chunk_Inl_undecoded:
  assumes "get_chunk rf k = Inl e'"
  shows "scan_chunk rf k g el = Inl e \<longleftrightarrow> e = e' \<and> \<not> handled e'"
proof (cases "handled e'")
  case False
  with assms show ?thesis by (auto simp: scan_chunk_raises_eq)
next
  case True
  from handled_cases [OF True] assms True show ?thesis
    by (auto simp: scan_chunk_absent_eq scan_chunk_corrupted_eq)
qed

lemma scan_chunk_Inl_indep:
  assumes "scan_chunk rf k g el = Inl e"
  shows "scan_chunk rf k g' el' = Inl e"
proof (cases "get_chunk rf k")
  case (Inr ch)
  from assms show ?thesis
    unfolding scan_chunk_decoded_case [OF Inr] by (auto split: sum.splits)
next
  case (Inl e')
  from assms show ?thesis
    unfolding scan_chunk_Inl_undecoded [OF Inl] .
qed

lemma scan_chunk_record_status:
  assumes "scan_chunk rf k g el = Inr (ch, Some c)"
  shows "snd c = CHUNK_OK \<or> snd c = CHUNK_CORRUPTED \<or> snd c = CHUNK_WRONG_LOCATED
         \<or> snd c = CHUNK_TOO_MANY_ENTITIES"
proof (cases "get_chunk rf k")
  case (Inr ch')
  from assms show ?thesis
    unfolding scan_chunk_decoded_case [OF Inr] by (auto split: sum.splits if_splits)
next
  case (Inl e')
  show ?thesis
  proof (cases "handled e'")
    case False
    with Inl assms show ?thesis by (simp add: scan_chunk_raises_eq)
  next
    case True
    from handled_cases [OF True] Inl assms show ?thesis
      by (auto simp: scan_chunk_absent_eq scan_chunk_corrupted_eq)
  qed
qed

lemma scan_chunk_None_iff:
  "scan_chunk rf k g el = Inr (ch, None) \<longleftrightarrow> ch = None \<and> absent rf k"
proof (cases "get_chunk rf k")
  case (Inr ch')
  then show ?thesis
    unfolding scan_chunk_decoded_case [OF Inr] by (simp add: absent_def split: sum.splits)
next
  case (Inl e')
  show ?thesis
  proof (cases "handled e'")
    case False
    with Inl show ?thesis by (auto simp: scan_chunk_raises_eq absent_def handled_def)
  next
    case True
    from handled_cases [OF True] Inl show ?thesis
      by (auto simp: scan_chunk_absent_eq scan_chunk_corrupted_eq absent_def)
  qed
qed

lemma scan_chunk_locals_NOT_CREATED:
  "(\<exists>l. scan_chunk_locals rf k g el = Inr l \<and> l_status l = CHUNK_NOT_CREATED) = absent rf k"
proof
  assume "\<exists>l. scan_chunk_locals rf k g el = Inr l \<and> l_status l = CHUNK_NOT_CREATED"
  then obtain l where "scan_chunk_locals rf k g el = Inr l" "l_status l = CHUNK_NOT_CREATED"
    by blast
  then have "scan_chunk rf k g el = Inr (l_chunk l, None)"
    by (simp add: scan_chunk_def)
  then show "absent rf k"
    by (simp add: scan_chunk_None_iff)
next
  assume "absent rf k"
  then obtain e where e: "get_chunk rf k = Inl e" "exc_class e = InconceivedChunk"
    unfolding absent_def by (auto split: sum.splits)
  show "\<exists>l. scan_chunk_locals rf k g el = Inr l \<and> l_status l = CHUNK_NOT_CREATED"
    unfolding scan_chunk_undecoded [OF e(1)] scan_chunk_except_def using e(2) by simp
qed

lemma ex_chunk_reads:
  "get_chunk_data_coords (ex_chunk g n) = Inr g"
  "chunk_entities (ex_chunk g n) = Inr (replicate n ''Pig'')"
  by (simp_all add: get_chunk_data_coords_def chunk_entities_def tag_getitem_def ex_chunk_def)

lemma slot_record_cong:
  "get_coords r = get_coords r' \<Longrightarrow> slot_record rf r el k = slot_record rf r' el k"
  by (simp add: slot_record_def get_global_chunk_coords_def)

lemma slot_status_cong:
  "get_coords r = get_coords r' \<Longrightarrow> slot_status rf r el k = slot_status rf r' el k"
  using slot_record_cong [of r r' rf el k] by (simp add: slot_status_def)

subsection \<open>One pass through the loop body\<close>

lemma scan_slot_Inl_iff:
  "scan_slot rf el de k st = Inl err \<longleftrightarrow>
   (\<exists>e. scan_chunk rf k (get_global_chunk_coords (s_r st) (fst k) (snd k)) el = Inl e
        \<and> err = (e, st))"
  unfolding scan_slot_def Let_def
  by (auto split: sum.splits option.splits prod.splits if_splits)

lemma scan_slot_absent:
  assumes "absent rf k"
  shows "scan_slot rf el de k st = Inr st"
proof -
  from assms obtain e where "get_chunk rf k = Inl e" "exc_class e = InconceivedChunk"
    unfolding absent_def by (auto split: sum.splits)
  then show ?thesis
    unfolding scan_slot_def Let_def by (simp add: scan_chunk_absent_eq)
qed

lemma scan_slot_r:
  assumes "scan_slot rf el de k st = Inr st'"
  shows "s_r st' =
           (s_r st)\<lparr>chunks :=
              (case slot_record rf (s_r st) el k of
                 None \<Rightarrow> chunks (s_r st)
               | Some c \<Rightarrow> (chunks (s_r st))(k \<mapsto> stored de c))\<rparr>"
  using assms unfolding scan_slot_def Let_def slot_record_def stored_def
  by (auto split: sum.splits option.splits prod.splits if_splits)

lemma scan_slot_chunk_count:
  assumes "scan_slot rf el de k st = Inr st'"
  shows "s_chunk_count st' = s_chunk_count st + (if slot_record rf (s_r st) el k \<noteq> None then 1 else 0)"
  using assms unfolding scan_slot_def Let_def slot_record_def
  by (auto split: sum.splits option.splits prod.splits if_splits)

lemma scan_slot_corrupted:
  assumes "scan_slot rf el de k st = Inr st'"
  shows "s_corrupted st' = s_corrupted st + (if slot_status rf (s_r st) el k = Some CHUNK_CORRUPTED then 1 else 0)"
  using assms unfolding scan_slot_def Let_def slot_record_def slot_status_def
  by (auto split: sum.splits option.splits prod.splits if_splits)

lemma scan_slot_wrong:
  assumes "scan_slot rf el de k st = Inr st'"
  shows "s_wrong st' = s_wrong st + (if slot_status rf (s_r st) el k = Some CHUNK_WRONG_LOCATED then 1 else 0)"
  using assms unfolding scan_slot_def Let_def slot_record_def slot_status_def
  by (auto split: sum.splits option.splits prod.splits if_splits)

lemma scan_slot_entities_prob:
  assumes "scan_slot rf el de k st = Inr st'"
  shows "s_entities_prob st' = s_entities_prob st +
           (if slot_status rf (s_r st) el k = Some CHUNK_TOO_MANY_ENTITIES \<and> \<not> de then 1 else 0)"
  using assms unfolding scan_slot_def Let_def slot_record_def slot_status_def
  by (auto split: sum.splits option.splits prod.splits if_splits)

lemma scan_slot_deleted:
  assumes "scan_slot rf el de k st = Inr st'"
  shows "s_deleted st' = s_deleted st @
           (if slot_status rf (s_r st) el k = Some CHUNK_TOO_MANY_ENTITIES \<and> de then [k] else [])"
  using assms unfolding scan_slot_def Let_def slot_record_def slot_status_def
  by (auto split: sum.splits option.splits prod.splits if_splits)

lemma scan_slot_get_coords:
  assumes "scan_slot rf el de k st = Inr st'"
  shows "get_coords (s_r st') = get_coords (s_r st)"
  by (simp add: scan_slot_r [OF assms])

subsection \<open>The loops over the slots\<close>

lemma scan_loop_append:
  "scan_loop rf el de (xs @ ys) st =
     (case scan_loop rf el de xs st of
        Inl err \<Rightarrow> Inl err
      | Inr st' \<Rightarrow> scan_loop rf el de ys st')"
  by (induction xs arbitrary: st) (auto split: sum.splits)

lemma scan_loop_absent:
  "\<forall>k\<in>set ks. absent rf k \<Longrightarrow> scan_loop rf el de ks st = Inr st"
  by (induction ks) (simp_all add: scan_slot_absent)

lemma scan_loop_get_coords:
  "scan_loop rf el de ks st = Inr st' \<Longrightarrow> get_coords (s_r st') = get_coords (s_r st)"
proof (induction ks arbitrary: st)
  case Nil
  then show ?case by simp
next
  case (Cons k ks)
  then obtain st1 where st1: "scan_slot rf el de k st = Inr st1"
    and rest: "scan_loop rf el de ks st1 = Inr st'"
    by (auto split: sum.splits)
  from Cons.IH [OF rest] scan_slot_get_coords [OF st1] show ?case by simp
qed

lemma scan_loop_total:
  assumes "\<forall>k\<in>set ks. \<forall>g e. scan_chunk rf k g el \<noteq> Inl e"
  shows "\<exists>st'. scan_loop rf el de ks st = Inr st'"
  using assms
proof (induction ks arbitrary: st)
  case Nil
  then show ?case by simp
next
  case (Cons k ks)
  have "\<exists>st1. scan_slot rf el de k st = Inr st1"
  proof (cases "scan_slot rf el de k st")
    case (Inl err)
    then obtain e where
      "scan_chunk rf k (get_global_chunk_coords (s_r st) (fst k) (snd k)) el = Inl e"
      unfolding scan_slot_Inl_iff by blast
    moreover from Cons.prems
    have "scan_chunk rf k (get_global_chunk_coords (s_r st) (fst k) (snd k)) el \<noteq> Inl e"
      by (simp del: split_paired_All)
    ultimately show ?thesis by simp
  next
    case (Inr st1)
    then show ?thesis by blast
  qed
  then obtain st1 where st1: "scan_slot rf el de k st = Inr st1" ..
  from Cons.prems have "\<forall>k\<in>set ks. \<forall>g e. scan_chunk rf k g el \<noteq> Inl e"
    by (simp del: split_paired_All)
  from Cons.IH [OF this, of st1] obtain st' where "scan_loop rf el de ks st1 = Inr st'"
    by blast
  with st1 show ?case by simp
qed

lemma scan_loop_raises:
  assumes "scan_loop rf el de ks1 st = Inr st1"
    and "get_chunk rf k = Inl e" and "\<not> handled e"
  shows "scan_loop rf el de (ks1 @ k # ks2) st = Inl (e, st1)"
proof -
  have "scan_chunk rf k g el = Inl e" for g
    using assms(2,3) by (rule scan_chunk_raises_eq)
  then have "scan_slot rf el de k st1 = Inl (e, st1)"
    by (simp add: scan_slot_Inl_iff)
  then show ?thesis
    by (simp add: scan_loop_append assms(1))
qed

lemma scan_loop_r:
  "scan_loop rf el de ks st = Inr st' \<Longrightarrow> s_r st' = (s_r st)\<lparr>chunks := chunks (s_r st')\<rparr>"
proof (induction ks arbitrary: st)
  case Nil
  then show ?case by simp
next
  case (Cons k ks)
  then obtain st1 where st1: "scan_slot rf el de k st = Inr st1"
    and rest: "scan_loop rf el de ks st1 = Inr st'"
    by (auto split: sum.splits)
  have "s_r st' = (s_r st1)\<lparr>chunks := chunks (s_r st')\<rparr>"
    by (rule Cons.IH [OF rest])
  also have "\<dots> = (s_r st)\<lparr>chunks := chunks (s_r st')\<rparr>"
    by (subst scan_slot_r [OF st1]) simp
  finally show ?case .
qed

lemma scan_loop_chunks:
  "scan_loop rf el de ks st = Inr st' \<Longrightarrow>
   chunks (s_r st') k =
     (if k \<in> set ks then
        (case slot_record rf (s_r st) el k of
           None \<Rightarrow> chunks (s_r st) k
         | Some c \<Rightarrow> Some (stored de c))
      else chunks (s_r st) k)"
proof (induction ks arbitrary: st)
  case Nil
  then show ?case by simp
next
  case (Cons k0 ks)
  then obtain st1 where st1: "scan_slot rf el de k0 st = Inr st1"
    and rest: "scan_loop rf el de ks st1 = Inr st'"
    by (auto split: sum.splits)
  have gc: "get_coords (s_r st1) = get_coords (s_r st)"
    by (rule scan_slot_get_coords [OF st1])
  have sr: "slot_record rf (s_r st1) el k = slot_record rf (s_r st) el k"
    by (rule slot_record_cong [OF gc])
  have c1: "chunks (s_r st1) =
      (case slot_record rf (s_r st) el k0 of
         None \<Rightarrow> chunks (s_r st)
       | Some c \<Rightarrow> (chunks (s_r st))(k0 \<mapsto> stored de c))"
    by (subst scan_slot_r [OF st1]) simp
  show ?case
    unfolding Cons.IH [OF rest] sr c1
    by (auto split: option.splits)
qed

lemma scan_loop_chunk_count:
  "scan_loop rf el de ks st = Inr st' \<Longrightarrow>
   s_chunk_count st' =
     s_chunk_count st + length (filter (\<lambda>k. slot_record rf (s_r st) el k \<noteq> None) ks)"
proof (induction ks arbitrary: st)
  case Nil
  then show ?case by simp
next
  case (Cons k0 ks)
  then obtain st1 where st1: "scan_slot rf el de k0 st = Inr st1"
    and rest: "scan_loop rf el de ks st1 = Inr st'"
    by (auto split: sum.splits)
  have sr: "slot_record rf (s_r st1) el k = slot_record rf (s_r st) el k" for k
    by (rule slot_record_cong [OF scan_slot_get_coords [OF st1]])
  show ?case
    unfolding Cons.IH [OF rest] sr scan_slot_chunk_count [OF st1] by simp
qed

lemma scan_loop_corrupted:
  "scan_loop rf el de ks st = Inr st' \<Longrightarrow>
   s_corrupted st' =
     s_corrupted st + length (filter (\<lambda>k. slot_status rf (s_r st) el k = Some CHUNK_CORRUPTED) ks)"
proof (induction ks arbitrary: st)
  case Nil
  then show ?case by simp
next
  case (Cons k0 ks)
  then obtain st1 where st1: "scan_slot rf el de k0 st = Inr st1"
    and rest: "scan_loop rf el de ks st1 = Inr st'"
    by (auto split: sum.splits)
  have sr: "slot_status rf (s_r st1) el k = slot_status rf (s_r st) el k" for k
    by (rule slot_status_cong [OF scan_slot_get_coords [OF st1]])
  show ?case
    unfolding Cons.IH [OF rest] sr scan_slot_corrupted [OF st1] by simp
qed

lemma scan_loop_wrong:
  "scan_loop rf el de ks st = Inr st' \<Longrightarrow>
   s_wrong st' =
     s_wrong st + length (filter (\<lambda>k. slot_status rf (s_r st) el k = Some CHUNK_WRONG_LOCATED) ks)"
proof (induction ks arbitrary: st)
  case Nil
  then show ?case by simp
next
  case (Cons k0 ks)
  then obtain st1 where st1: "scan_slot rf el de k0 st = Inr st1"
    and rest: "scan_loop rf el de ks st1 = Inr st'"
    by (auto split: sum.splits)
  have sr: "slot_status rf (s_r st1) el k = slot_status rf (s_r st) el k" for k
    by (rule slot_status_cong [OF scan_slot_get_coords [OF st1]])
  show ?case
    unfolding Cons.IH [OF rest] sr scan_slot_wrong [OF st1] by simp
qed

lemma scan_loop_entities_prob:
  "scan_loop rf el de ks st = Inr st' \<Longrightarrow>
   s_entities_prob st' =
     s_entities_prob st +
     (if de then 0
      else length (filter (\<lambda>k. slot_status rf (s_r st) el k = Some CHUNK_TOO_MANY_ENTITIES) ks))"
proof (induction ks arbitrary: st)
  case Nil
  then show ?case by simp
next
  case (Cons k0 ks)
  then obtain st1 where st1: "scan_slot rf el de k0 st = Inr st1"
    and rest: "scan_loop rf el de ks st1 = Inr st'"
    by (auto split: sum.splits)
  have sr: "slot_status rf (s_r st1) el k = slot_status rf (s_r st) el k" for k
    by (rule slot_status_cong [OF scan_slot_get_coords [OF st1]])
  show ?case
    unfolding Cons.IH [OF rest] sr scan_slot_entities_prob [OF st1] by simp
qed

lemma scan_loop_deleted:
  "scan_loop rf el de ks st = Inr st' \<Longrightarrow>
   s_deleted st' =
     s_deleted st @
     (if de then filter (\<lambda>k. slot_status rf (s_r st) el k = Some CHUNK_TOO_MANY_ENTITIES) ks
      else [])"
proof (induction ks arbitrary: st)
  case Nil
  then show ?case by simp
next
  case (Cons k0 ks)
  then obtain st1 where st1: "scan_slot rf el de k0 st = Inr st1"
    and rest: "scan_loop rf el de ks st1 = Inr st'"
    by (auto split: sum.splits)
  have sr: "slot_status rf (s_r st1) el k = slot_status rf (s_r st) el k" for k
    by (rule slot_status_cong [OF scan_slot_get_coords [OF st1]])
  show ?case
    unfolding Cons.IH [OF rest] sr scan_slot_deleted [OF st1] by simp
qed

subsection \<open>The post-pass\<close>

lemma getitem_Some: "chunks r k = Some c \<Longrightarrow> getitem tb r k = Inr c"
  by (simp add: getitem_def)

lemma getitem_None:
  "chunks r k = None \<Longrightarrow>
   \<exists>e. getitem tb r k = Inl e \<and> exc_class e = KeyError \<and> exc_tb e = tb"
  by (simp add: getitem_def)

lemma shares_pair:
  "shares r (k, m) \<longleftrightarrow>
   m = STATUS_CHUNK_OVERLAPPING \<and> map_option snd (chunks r k) = Some CHUNK_WRONG_LOCATED"
  by (simp add: shares_def)

lemma sharing_Inr:
  assumes "\<forall>km\<in>set md. snd km = STATUS_CHUNK_OVERLAPPING \<longrightarrow> chunks r (fst km) \<noteq> None"
  shows "sharing tb md r = Inr (map fst (filter (shares r) md))"
  using assms
proof (induction md)
  case Nil
  then show ?case by simp
next
  case (Cons km md)
  obtain k m where km: "km = (k, m)" by (cases km)
  from Cons have IH: "sharing tb md r = Inr (map fst (filter (shares r) md))"
    by simp
  show ?case
  proof (cases "m = STATUS_CHUNK_OVERLAPPING")
    case False
    then show ?thesis by (simp add: km IH shares_pair)
  next
    case True
    with Cons.prems km obtain c where c: "chunks r k = Some c" by auto
    show ?thesis
      using True by (simp add: km IH getitem_Some [OF c] shares_pair c)
  qed
qed

lemma sharing_Inl:
  assumes "(k, STATUS_CHUNK_OVERLAPPING) \<in> set md" and "chunks r k = None"
  shows "\<exists>e. sharing tb md r = Inl e \<and> exc_class e = KeyError \<and> exc_tb e = tb"
  using assms(1)
proof (induction md)
  case Nil
  then show ?case by simp
next
  case (Cons km md)
  obtain k' m where km: "km = (k', m)" by (cases km)
  show ?case
  proof (cases "m = STATUS_CHUNK_OVERLAPPING")
    case False
    with Cons km show ?thesis by auto
  next
    case True
    show ?thesis
    proof (cases "chunks r k'")
      case None
      from getitem_None [OF None, of tb] True km show ?thesis by auto
    next
      case (Some c)
      have "(k, STATUS_CHUNK_OVERLAPPING) \<in> set md"
        using Cons.prems km Some assms(2) by auto
      from Cons.IH [OF this] obtain e where
        "sharing tb md r = Inl e" "exc_class e = KeyError" "exc_tb e = tb" by blast
      then show ?thesis
        using True km by (simp add: getitem_Some [OF Some])
    qed
  qed
qed

lemma share_loop_Inr:
  assumes "\<forall>k\<in>set ks. chunks r k \<noteq> None"
  shows "share_loop tb ks r n =
     Inr (r\<lparr>chunks := (\<lambda>k. if k \<in> set ks
                              then map_option (\<lambda>c. (fst c, CHUNK_SHARED_OFFSET)) (chunks r k)
                              else chunks r k)\<rparr>,
          n + length ks)"
  using assms
proof (induction ks arbitrary: r n)
  case Nil
  then show ?case by simp
next
  case (Cons k0 ks)
  then obtain c where c: "chunks r k0 = Some c" by auto
  let ?r1 = "setitem r k0 (fst c, CHUNK_SHARED_OFFSET)"
  have pre: "\<forall>k\<in>set ks. chunks ?r1 k \<noteq> None"
    using Cons.prems by (simp add: setitem_def)
  have eq: "(\<lambda>k. if k \<in> set ks
                 then map_option (\<lambda>c. (fst c, CHUNK_SHARED_OFFSET)) (chunks ?r1 k)
                 else chunks ?r1 k) =
            (\<lambda>k. if k \<in> set (k0 # ks)
                 then map_option (\<lambda>c. (fst c, CHUNK_SHARED_OFFSET)) (chunks r k)
                 else chunks r k)"
    by (auto simp: fun_eq_iff setitem_def c)
  have "share_loop tb (k0 # ks) r n = share_loop tb ks ?r1 (n + 1)"
    by (simp add: getitem_Some [OF c])
  also have "\<dots> =
     Inr (?r1\<lparr>chunks := (\<lambda>k. if k \<in> set ks
                              then map_option (\<lambda>c. (fst c, CHUNK_SHARED_OFFSET)) (chunks ?r1 k)
                              else chunks ?r1 k)\<rparr>,
          n + 1 + length ks)"
    by (rule Cons.IH [OF pre])
  also have "\<dots> =
     Inr (r\<lparr>chunks := (\<lambda>k. if k \<in> set (k0 # ks)
                              then map_option (\<lambda>c. (fst c, CHUNK_SHARED_OFFSET)) (chunks r k)
                              else chunks r k)\<rparr>,
          n + length (k0 # ks))"
    unfolding eq by (simp add: setitem_def)
  finally show ?case .
qed

lemma shares_stored: "km \<in> set (filter (shares r) md) \<Longrightarrow> chunks r (fst km) \<noteq> None"
  by (auto simp: shares_def)

lemma post_pass_Inr:
  assumes "\<forall>km\<in>set md. snd km = STATUS_CHUNK_OVERLAPPING \<longrightarrow> chunks r (fst km) \<noteq> None"
  shows "post_pass tb md r =
     Inr (r\<lparr>chunks := (\<lambda>k. if k \<in> fst ` {km \<in> set md. shares r km}
                              then map_option (\<lambda>c. (fst c, CHUNK_SHARED_OFFSET)) (chunks r k)
                              else chunks r k)\<rparr>,
          length (filter (shares r) md))"
proof -
  have stored: "\<forall>k\<in>set (map fst (filter (shares r) md)). chunks r k \<noteq> None"
    using shares_stored [of _ r md] by auto
  show ?thesis
    unfolding post_pass_def sharing_Inr [OF assms]
    by (simp add: share_loop_Inr [OF stored])
qed

lemma post_pass_Inl:
  assumes "(k, STATUS_CHUNK_OVERLAPPING) \<in> set md" and "chunks r k = None"
  shows "\<exists>e. post_pass tb md r = Inl (e, r) \<and> exc_class e = KeyError \<and> exc_tb e = tb"
proof -
  from sharing_Inl [OF assms, of tb] obtain e where
    "sharing tb md r = Inl e" "exc_class e = KeyError" "exc_tb e = tb" by blast
  then show ?thesis
    unfolding post_pass_def by simp
qed

lemma sharing_count:
  assumes "distinct (map fst md)"
  shows "length (filter (shares r) md) = card (fst ` {km \<in> set md. shares r km})"
proof -
  have d: "distinct (map fst (filter (shares r) md))"
    using assms by (rule distinct_map_filter)
  have "card (fst ` {km \<in> set md. shares r km}) = card (set (map fst (filter (shares r) md)))"
    by simp
  also have "\<dots> = length (map fst (filter (shares r) md))"
    using d by (rule distinct_card)
  finally show ?thesis by simp
qed

lemma sharing_keys:
  "fst ` {km \<in> set md. shares r km} =
   {k. (k, STATUS_CHUNK_OVERLAPPING) \<in> set md
       \<and> map_option snd (chunks r k) = Some CHUNK_WRONG_LOCATED}"
proof -
  have "k \<in> fst ` {km \<in> set md. shares r km} \<longleftrightarrow>
        (k, STATUS_CHUNK_OVERLAPPING) \<in> set md
        \<and> map_option snd (chunks r k) = Some CHUNK_WRONG_LOCATED" for k
  proof
    assume "k \<in> fst ` {km \<in> set md. shares r km}"
    then obtain m where "(k, m) \<in> set md" "shares r (k, m)" by force
    then show "(k, STATUS_CHUNK_OVERLAPPING) \<in> set md
        \<and> map_option snd (chunks r k) = Some CHUNK_WRONG_LOCATED"
      by (simp add: shares_pair)
  next
    assume a: "(k, STATUS_CHUNK_OVERLAPPING) \<in> set md
        \<and> map_option snd (chunks r k) = Some CHUNK_WRONG_LOCATED"
    then have "shares r (k, STATUS_CHUNK_OVERLAPPING)" by (simp add: shares_pair)
    with a have "(k, STATUS_CHUNK_OVERLAPPING) \<in> {km \<in> set md. shares r km}" by simp
    then show "k \<in> fst ` {km \<in> set md. shares r km}" by force
  qed
  then show ?thesis by blast
qed

subsection \<open>The body of the outer \<open>try\<close>\<close>

lemma post_pass_stored:
  assumes "post_pass tb md r = Inr res"
  shows "\<forall>km\<in>set md. snd km = STATUS_CHUNK_OVERLAPPING \<longrightarrow> chunks r (fst km) \<noteq> None"
proof (rule ccontr)
  assume "\<not> ?thesis"
  then obtain k where "(k, STATUS_CHUNK_OVERLAPPING) \<in> set md" "chunks r k = None"
    by force
  from post_pass_Inl [OF this, of tb] assms show False by auto
qed

lemma scan_region_try_opened:
  assumes "w_open w (path r0) = Inr rf"
  shows "scan_region_try w r0 el de =
     (case scan_loop rf el de raster (init_state r0) of
        Inl err \<Rightarrow> Inl err
      | Inr st \<Rightarrow>
          (case post_pass (w_traceback w) (metadata rf) (s_r st) of
             Inl (e, r') \<Rightarrow> Inl (e, st\<lparr>s_r := r'\<rparr>)
           | Inr (r', shared_counter) \<Rightarrow>
               Inr (st\<lparr>s_r := r'
                        \<lparr>chunk_count := s_chunk_count st,
                         corrupted_chunks := s_corrupted st,
                         wrong_located_chunks := s_wrong st,
                         entities_prob := s_entities_prob st,
                         shared_offset := shared_counter,
                         scan_time := Some (w_time w),
                         status := REGION_OK,
                         scanned := True\<rparr>\<rparr>)))"
  unfolding scan_region_try_def Let_def assms by simp

lemma scan_region_file_Result:
  assumes "w_open w (path r0) = Inr rf"
    and "scan_loop rf el de raster (init_state r0) = Inr st"
    and "\<forall>km\<in>set (metadata rf). snd km = STATUS_CHUNK_OVERLAPPING \<longrightarrow> chunks (s_r st) (fst km) \<noteq> None"
  shows "scan_region_file w r0 el de =
     (Return (Result ((s_r st)
        \<lparr>chunks := (\<lambda>k. if k \<in> fst ` {km \<in> set (metadata rf). shares (s_r st) km}
                         then map_option (\<lambda>c. (fst c, CHUNK_SHARED_OFFSET)) (chunks (s_r st) k)
                         else chunks (s_r st) k),
         chunk_count := s_chunk_count st,
         corrupted_chunks := s_corrupted st,
         wrong_located_chunks := s_wrong st,
         entities_prob := s_entities_prob st,
         shared_offset := length (filter (shares (s_r st)) (metadata rf)),
         scan_time := Some (w_time w),
         status := REGION_OK,
         scanned := True\<rparr>)),
      s_deleted st)"
  by (simp add: scan_region_file_def scan_region_try_opened [OF assms(1)] assms(2)
      post_pass_Inr [OF assms(3)])

lemma scan_region_file_Result_elim:
  assumes "w_open w (path r0) = Inr rf"
    and "scan_region_file w r0 el de = (Return (Result r'), dels)"
  shows "\<exists>st. scan_loop rf el de raster (init_state r0) = Inr st
           \<and> (\<forall>km\<in>set (metadata rf). snd km = STATUS_CHUNK_OVERLAPPING
                 \<longrightarrow> chunks (s_r st) (fst km) \<noteq> None)"
proof (cases "scan_loop rf el de raster (init_state r0)")
  case (Inl err)
  with assms(2) show ?thesis
    unfolding scan_region_file_def scan_region_try_opened [OF assms(1)]
    by (auto split: prod.splits if_splits)
next
  case (Inr st)
  show ?thesis
  proof (cases "post_pass (w_traceback w) (metadata rf) (s_r st)")
    case (Inl err)
    with assms(2) Inr show ?thesis
      unfolding scan_region_file_def scan_region_try_opened [OF assms(1)]
      by (auto split: prod.splits if_splits)
  next
    case pp: (Inr res)
    from post_pass_stored [OF pp] Inr show ?thesis by blast
  qed
qed

lemma scan_region_file_fault:
  assumes "w_open w (path r0) = Inr rf"
    and "scan_loop rf el de raster (init_state r0) = Inr st"
    and "(k, STATUS_CHUNK_OVERLAPPING) \<in> set (metadata rf)" and "chunks (s_r st) k = None"
  shows "\<exists>e. scan_region_try w r0 el de = Inl (e, st) \<and> exc_class e = KeyError
           \<and> exc_tb e = w_traceback w"
proof -
  from post_pass_Inl [OF assms(3,4), of "w_traceback w"] obtain e where
    e: "post_pass (w_traceback w) (metadata rf) (s_r st) = Inl (e, s_r st)"
      "exc_class e = KeyError" "exc_tb e = w_traceback w"
    by blast
  have "scan_region_try w r0 el de = Inl (e, st)"
    by (simp add: scan_region_try_opened [OF assms(1)] assms(2) e(1))
  with e(2,3) show ?thesis by blast
qed

subsection \<open>The example region\<close>

lemma ex_get_chunk_rest:
  "k \<in> set ex_rest \<Longrightarrow> ex_get_chunk k = Inl (ex_exc InconceivedChunk ''no chunk'')"
  by (drule ex_rest_mem) (simp add: ex_get_chunk_def ex_prefix_def)

lemma ex_rest_absent:
  assumes "\<And>k. k \<in> set ex_rest \<Longrightarrow> get_chunk rf k = ex_get_chunk k"
  shows "\<forall>k\<in>set ex_rest. absent rf k"
  by (simp add: absent_def assms ex_get_chunk_rest ex_exc_def)

lemma ex_slot_00:
  assumes "get_chunk rf (0, 0) = ex_get_chunk (0, 0)" and "get_coords r = (0, 0)"
  shows "slot_record rf r 2 (0, 0) = Some (Some 3, CHUNK_WRONG_LOCATED)"
proof -
  have gc: "get_chunk rf (0, 0) = Inr (ex_chunk (5, 5) 3)"
    unfolding assms(1) by (simp add: ex_get_chunk_def)
  show ?thesis
    unfolding slot_record_def scan_chunk_decoded_eq [OF gc ex_chunk_reads]
    by (simp add: assms(2) get_global_chunk_coords_def)
qed

lemma ex_slot_01:
  assumes "get_chunk rf (0, 1) = ex_get_chunk (0, 1)" and "get_coords r = (0, 0)"
  shows "slot_record rf r 2 (0, 1) = Some (Some 3, CHUNK_TOO_MANY_ENTITIES)"
proof -
  have gc: "get_chunk rf (0, 1) = Inr (ex_chunk (0, 1) 3)"
    unfolding assms(1) by (simp add: ex_get_chunk_def)
  show ?thesis
    unfolding slot_record_def scan_chunk_decoded_eq [OF gc ex_chunk_reads]
    by (simp add: assms(2) get_global_chunk_coords_def)
qed

lemma ex_slot_02:
  assumes "get_chunk rf (0, 2) = ex_get_chunk (0, 2)"
  shows "slot_record rf r 2 (0, 2) = Some (None, CHUNK_CORRUPTED)"
proof -
  have gc: "get_chunk rf (0, 2) = Inl (ex_exc RegionHeaderError ''bad offset'')"
    unfolding assms(1) by (simp add: ex_get_chunk_def)
  have cl: "exc_class (ex_exc RegionHeaderError ''bad offset'') = RegionHeaderError
            \<or> exc_class (ex_exc RegionHeaderError ''bad offset'') = ChunkDataError
            \<or> exc_class (ex_exc RegionHeaderError ''bad offset'') = ChunkHeaderError"
    by (simp add: ex_exc_def)
  show ?thesis
    unfolding slot_record_def scan_chunk_corrupted_eq [OF gc cl] by simp
qed

lemma ex_slot_03:
  assumes "get_chunk rf (0, 3) = ex_get_chunk (0, 3)" and "get_coords r = (0, 0)"
  shows "slot_record rf r 2 (0, 3) = Some (Some 0, CHUNK_OK)"
proof -
  have gc: "get_chunk rf (0, 3) = Inr (ex_chunk (0, 3) 0)"
    unfolding assms(1) by (simp add: ex_get_chunk_def)
  show ?thesis
    unfolding slot_record_def scan_chunk_decoded_eq [OF gc ex_chunk_reads]
    by (simp add: assms(2) get_global_chunk_coords_def)
qed

lemma ex_slot_04:
  assumes "get_chunk rf (0, 4) = ex_get_chunk (0, 4)" and "get_coords r = (0, 0)"
  shows "slot_record rf r 2 (0, 4) = Some (Some 0, CHUNK_WRONG_LOCATED)"
proof -
  have gc: "get_chunk rf (0, 4) = Inr (ex_chunk (9, 9) 0)"
    unfolding assms(1) by (simp add: ex_get_chunk_def)
  show ?thesis
    unfolding slot_record_def scan_chunk_decoded_eq [OF gc ex_chunk_reads]
    by (simp add: assms(2) get_global_chunk_coords_def)
qed

lemma slot_record_absent: "absent rf k \<Longrightarrow> slot_record rf r el k = None"
  unfolding slot_record_def
  using scan_chunk_None_iff [of rf k "get_global_chunk_coords r (fst k) (snd k)" el None]
  by simp

lemma scan_slot_stored:
  assumes "slot_record rf (s_r st) el k = Some c"
  shows "scan_slot rf el de k st =
     Inr (st\<lparr>s_r := (s_r st)\<lparr>chunks := (chunks (s_r st))(k \<mapsto> stored de c)\<rparr>,
             s_chunk_count := s_chunk_count st + 1,
             s_corrupted := s_corrupted st + (if snd c = CHUNK_CORRUPTED then 1 else 0),
             s_wrong := s_wrong st + (if snd c = CHUNK_WRONG_LOCATED then 1 else 0),
             s_entities_prob := s_entities_prob st
               + (if snd c = CHUNK_TOO_MANY_ENTITIES \<and> \<not> de then 1 else 0),
             s_deleted := s_deleted st
               @ (if snd c = CHUNK_TOO_MANY_ENTITIES \<and> de then [k] else [])\<rparr>)"
proof -
  from assms obtain ch where
    "scan_chunk rf k (get_global_chunk_coords (s_r st) (fst k) (snd k)) el = Inr (ch, Some c)"
    unfolding slot_record_def by (auto split: sum.splits)
  then show ?thesis
    unfolding scan_slot_def Let_def stored_def by auto
qed

lemma ex_scan_two:
  assumes "get_chunk rf (0, 0) = ex_get_chunk (0, 0)" and "get_chunk rf (0, 1) = ex_get_chunk (0, 1)"
  shows "scan_loop rf 2 False [(0, 0), (0, 1)] (init_state ex_r) = Inr ex_state_partial"
proof -
  let ?s1 = "\<lparr>s_r = ex_r\<lparr>chunks := [(0, 0) \<mapsto> (Some 3, CHUNK_WRONG_LOCATED)]\<rparr>,
           s_chunk_count = 1, s_corrupted = 0, s_wrong = 1, s_entities_prob = 0, s_deleted = []\<rparr>"
  have r0: "slot_record rf (s_r (init_state ex_r)) 2 (0, 0) = Some (Some 3, CHUNK_WRONG_LOCATED)"
    by (rule ex_slot_00 [OF assms(1)]) (simp add: init_state_def ex_r_def)
  have r1: "slot_record rf (s_r ?s1) 2 (0, 1) = Some (Some 3, CHUNK_TOO_MANY_ENTITIES)"
    by (rule ex_slot_01 [OF assms(2)]) (simp add: ex_r_def)
  have a: "scan_slot rf 2 False (0, 0) (init_state ex_r) = Inr ?s1"
    unfolding scan_slot_stored [OF r0] by (simp add: init_state_def stored_def ex_r_def)
  have b: "scan_slot rf 2 False (0, 1) ?s1 = Inr ex_state_partial"
    unfolding scan_slot_stored [OF r1] by (simp add: stored_def ex_state_partial_def)
  show ?thesis
    using a b by simp
qed

lemma ex_scan_prefix:
  assumes "\<And>k. k \<in> set ex_prefix \<Longrightarrow> get_chunk rf k = ex_get_chunk k"
  shows "scan_loop rf 2 de ex_prefix (init_state ex_r) = Inr (ex_state de)"
proof -
  have gc0: "get_chunk rf (0, 0) = ex_get_chunk (0, 0)"
    and gc1: "get_chunk rf (0, 1) = ex_get_chunk (0, 1)"
    and gc2: "get_chunk rf (0, 2) = ex_get_chunk (0, 2)"
    and gc3: "get_chunk rf (0, 3) = ex_get_chunk (0, 3)"
    and gc4: "get_chunk rf (0, 4) = ex_get_chunk (0, 4)"
    by (rule assms, simp add: ex_prefix_def)+
  let ?c1 = "if de then (Some 0, CHUNK_OK) else (Some 3, CHUNK_TOO_MANY_ENTITIES)"
  let ?s1 = "\<lparr>s_r = ex_r\<lparr>chunks := [(0, 0) \<mapsto> (Some 3, CHUNK_WRONG_LOCATED)]\<rparr>,
           s_chunk_count = 1, s_corrupted = 0, s_wrong = 1, s_entities_prob = 0, s_deleted = []\<rparr>"
  let ?s2 = "\<lparr>s_r = ex_r\<lparr>chunks := [(0, 0) \<mapsto> (Some 3, CHUNK_WRONG_LOCATED), (0, 1) \<mapsto> ?c1]\<rparr>,
           s_chunk_count = 2, s_corrupted = 0, s_wrong = 1,
           s_entities_prob = (if de then 0 else 1), s_deleted = (if de then [(0, 1)] else [])\<rparr>"
  let ?s3 = "\<lparr>s_r = ex_r\<lparr>chunks := [(0, 0) \<mapsto> (Some 3, CHUNK_WRONG_LOCATED), (0, 1) \<mapsto> ?c1,
                                   (0, 2) \<mapsto> (None, CHUNK_CORRUPTED)]\<rparr>,
           s_chunk_count = 3, s_corrupted = 1, s_wrong = 1,
           s_entities_prob = (if de then 0 else 1), s_deleted = (if de then [(0, 1)] else [])\<rparr>"
  let ?s4 = "\<lparr>s_r = ex_r\<lparr>chunks := [(0, 0) \<mapsto> (Some 3, CHUNK_WRONG_LOCATED), (0, 1) \<mapsto> ?c1,
                                   (0, 2) \<mapsto> (None, CHUNK_CORRUPTED), (0, 3) \<mapsto> (Some 0, CHUNK_OK)]\<rparr>,
           s_chunk_count = 4, s_corrupted = 1, s_wrong = 1,
           s_entities_prob = (if de then 0 else 1), s_deleted = (if de then [(0, 1)] else [])\<rparr>"
  have r0: "slot_record rf (s_r (init_state ex_r)) 2 (0, 0) = Some (Some 3, CHUNK_WRONG_LOCATED)"
    by (rule ex_slot_00 [OF gc0]) (simp add: init_state_def ex_r_def)
  have r1: "slot_record rf (s_r ?s1) 2 (0, 1) = Some (Some 3, CHUNK_TOO_MANY_ENTITIES)"
    by (rule ex_slot_01 [OF gc1]) (simp add: ex_r_def)
  have r2: "slot_record rf (s_r ?s2) 2 (0, 2) = Some (None, CHUNK_CORRUPTED)"
    by (rule ex_slot_02 [OF gc2])
  have r3: "slot_record rf (s_r ?s3) 2 (0, 3) = Some (Some 0, CHUNK_OK)"
    by (rule ex_slot_03 [OF gc3]) (simp add: ex_r_def)
  have r4: "slot_record rf (s_r ?s4) 2 (0, 4) = Some (Some 0, CHUNK_WRONG_LOCATED)"
    by (rule ex_slot_04 [OF gc4]) (simp add: ex_r_def)
  have a: "scan_slot rf 2 de (0, 0) (init_state ex_r) = Inr ?s1"
    unfolding scan_slot_stored [OF r0] by (simp add: init_state_def stored_def ex_r_def)
  have b: "scan_slot rf 2 de (0, 1) ?s1 = Inr ?s2"
    unfolding scan_slot_stored [OF r1] by (simp add: stored_def)
  have c: "scan_slot rf 2 de (0, 2) ?s2 = Inr ?s3"
    unfolding scan_slot_stored [OF r2] by (simp add: stored_def)
  have d: "scan_slot rf 2 de (0, 3) ?s3 = Inr ?s4"
    unfolding scan_slot_stored [OF r3] by (simp add: stored_def)
  have e: "scan_slot rf 2 de (0, 4) ?s4 = Inr (ex_state de)"
    unfolding scan_slot_stored [OF r4] by (simp add: stored_def ex_state_def)
  show ?thesis
    unfolding ex_prefix_def using a b c d e by simp
qed

lemma ex_scan_loop:
  assumes "get_chunk rf = ex_get_chunk"
  shows "scan_loop rf 2 de raster (init_state ex_r) = Inr (ex_state de)"
proof -
  have "\<forall>k\<in>set ex_rest. absent rf k"
    by (rule ex_rest_absent) (simp add: assms)
  then have "scan_loop rf 2 de ex_rest (ex_state de) = Inr (ex_state de)"
    by (rule scan_loop_absent)
  then show ?thesis
    unfolding raster_split scan_loop_append
    by (simp add: ex_scan_prefix assms)
qed

lemma ex_scan_loop_raising:
  "scan_loop ex_region_file_raising 2 False raster (init_state ex_r) =
     Inl (ex_exc (OtherException ''ValueError'') ''bad tag'', ex_state_partial)"
proof -
  have r: "raster = [(0, 0), (0, 1)] @ (0, 2) # ([(0, 3), (0, 4)] @ ex_rest)"
    by (simp add: raster_split ex_prefix_def)
  have a: "scan_loop ex_region_file_raising 2 False [(0, 0), (0, 1)] (init_state ex_r)
             = Inr ex_state_partial"
    by (rule ex_scan_two) (simp_all add: ex_region_file_raising_def)
  have b: "get_chunk ex_region_file_raising (0, 2)
             = Inl (ex_exc (OtherException ''ValueError'') ''bad tag'')"
    by (simp add: ex_region_file_raising_def)
  have c: "\<not> handled (ex_exc (OtherException ''ValueError'') ''bad tag'')"
    by (simp add: handled_def ex_exc_def)
  show ?thesis
    unfolding r by (rule scan_loop_raises [OF a b c])
qed

subsection \<open>The post-pass and the records it reads\<close>

lemma sharing_Inl_key:
  assumes "\<exists>k. (k, STATUS_CHUNK_OVERLAPPING) \<in> set md \<and> chunks r k = None"
  shows "\<exists>k. (k, STATUS_CHUNK_OVERLAPPING) \<in> set md \<and> chunks r k = None
           \<and> sharing tb md r =
               Inl \<lparr>exc_class = KeyError,
                    exc_msg = ''('' @ str_nat (fst k) @ '', '' @ str_nat (snd k) @ '')'',
                    exc_tb = tb\<rparr>"
  using assms
proof (induction md)
  case Nil
  then show ?case by simp
next
  case (Cons km md)
  obtain k' m where km: "km = (k', m)" by (cases km)
  let ?err = "\<lambda>k. Inl \<lparr>exc_class = KeyError,
                    exc_msg = ''('' @ str_nat (fst k) @ '', '' @ str_nat (snd k) @ '')'',
                    exc_tb = tb\<rparr> :: exception + coord list"
  have rest: "\<exists>k. (k, STATUS_CHUNK_OVERLAPPING) \<in> set (km # md) \<and> chunks r k = None
                \<and> sharing tb (km # md) r = ?err k"
    if tl: "\<exists>k. (k, STATUS_CHUNK_OVERLAPPING) \<in> set md \<and> chunks r k = None"
      and eq: "\<And>e. sharing tb md r = Inl e \<Longrightarrow> sharing tb (km # md) r = Inl e"
  proof -
    from Cons.IH [OF tl] obtain k where
      k: "(k, STATUS_CHUNK_OVERLAPPING) \<in> set md" "chunks r k = None"
        "sharing tb md r = ?err k"
      by blast
    have "(k, STATUS_CHUNK_OVERLAPPING) \<in> set (km # md)"
      using k(1) by simp
    moreover have "sharing tb (km # md) r = ?err k"
      using k(3) by (rule eq)
    ultimately show ?thesis
      using k(2) by blast
  qed
  show ?case
  proof (cases "m = STATUS_CHUNK_OVERLAPPING")
    case False
    have tl: "\<exists>k. (k, STATUS_CHUNK_OVERLAPPING) \<in> set md \<and> chunks r k = None"
      using Cons.prems km False by auto
    show ?thesis
      by (rule rest [OF tl]) (simp add: km False)
  next
    case True
    show ?thesis
    proof (cases "chunks r k'")
      case None
      have s: "sharing tb (km # md) r = ?err k'"
        by (simp add: km True getitem_def None)
      have "(k', STATUS_CHUNK_OVERLAPPING) \<in> set (km # md)"
        by (simp add: km True)
      with None s show ?thesis by blast
    next
      case (Some c)
      have tl: "\<exists>k. (k, STATUS_CHUNK_OVERLAPPING) \<in> set md \<and> chunks r k = None"
        using Cons.prems km Some by auto
      show ?thesis
        by (rule rest [OF tl]) (simp add: km True getitem_Some [OF Some])
    qed
  qed
qed

lemma overlapping_stored_iff:
  "(\<forall>k\<in>overlapping rf. chunks r k \<noteq> None) \<longleftrightarrow>
   (\<forall>km\<in>set (metadata rf). snd km = STATUS_CHUNK_OVERLAPPING \<longrightarrow> chunks r (fst km) \<noteq> None)"
  unfolding overlapping_def by force

lemma overlapping_sharing:
  "fst ` {km \<in> set (metadata rf). shares r km} =
   {k \<in> overlapping rf. map_option snd (chunks r k) = Some CHUNK_WRONG_LOCATED}"
  unfolding sharing_keys overlapping_def by simp

lemma scan_loop_absent_unstored:
  assumes "scan_loop rf el de ks st = Inr st'" and "absent rf k" and "chunks (s_r st) k = None"
  shows "chunks (s_r st') k = None"
  unfolding scan_loop_chunks [OF assms(1)]
  by (simp add: slot_record_absent [OF assms(2)] assms(3))

subsection \<open>The object that a completed scan returns\<close>

lemma scan_loop_no_raise:
  "scan_loop rf el de ks st = Inr st' \<Longrightarrow> k \<in> set ks \<Longrightarrow> scan_chunk rf k g el' \<noteq> Inl e"
proof (induction ks arbitrary: st)
  case Nil
  then show ?case by simp
next
  case (Cons k0 ks)
  from Cons.prems(1) obtain st1 where st1: "scan_slot rf el de k0 st = Inr st1"
    and rest: "scan_loop rf el de ks st1 = Inr st'"
    by (auto split: sum.splits)
  show ?case
  proof (cases "k = k0")
    case True
    show ?thesis
    proof
      assume "scan_chunk rf k g el' = Inl e"
      then have "scan_chunk rf k0 (get_global_chunk_coords (s_r st) (fst k0) (snd k0)) el = Inl e"
        unfolding True by (rule scan_chunk_Inl_indep)
      then have "scan_slot rf el de k0 st = Inl (e, st)"
        by (simp add: scan_slot_Inl_iff)
      with st1 show False by simp
    qed
  next
    case False
    with Cons.prems(2) have "k \<in> set ks" by simp
    from Cons.IH [OF rest this] show ?thesis .
  qed
qed

lemma slot_record_None_iff:
  assumes "\<And>e. scan_chunk rf k (get_global_chunk_coords r (fst k) (snd k)) el \<noteq> Inl e"
  shows "slot_record rf r el k = None \<longleftrightarrow> absent rf k"
proof (cases "scan_chunk rf k (get_global_chunk_coords r (fst k) (snd k)) el")
  case (Inl e)
  with assms show ?thesis by blast
next
  case (Inr res)
  obtain ch c where res: "res = (ch, c)" by (cases res)
  show ?thesis
  proof (cases c)
    case None
    with Inr res have "absent rf k"
      by (simp add: scan_chunk_None_iff)
    with Inr res None show ?thesis
      by (simp add: slot_record_def)
  next
    case (Some c')
    have "\<not> absent rf k"
    proof
      assume "absent rf k"
      then have "slot_record rf r el k = None" by (rule slot_record_absent)
      with Inr res Some show False by (simp add: slot_record_def)
    qed
    with Inr res Some show ?thesis
      by (simp add: slot_record_def)
  qed
qed

lemma slot_record_status:
  assumes "slot_record rf r el k = Some c"
  shows "snd c = CHUNK_OK \<or> snd c = CHUNK_CORRUPTED \<or> snd c = CHUNK_WRONG_LOCATED
         \<or> snd c = CHUNK_TOO_MANY_ENTITIES"
proof -
  from assms obtain ch where
    "scan_chunk rf k (get_global_chunk_coords r (fst k) (snd k)) el = Inr (ch, Some c)"
    unfolding slot_record_def by (auto split: sum.splits)
  then show ?thesis by (rule scan_chunk_record_status)
qed

lemma stored_status:
  "snd (stored de c) = (if snd c = CHUNK_TOO_MANY_ENTITIES \<and> de then CHUNK_OK else snd c)"
  by (simp add: stored_def)

lemma scan_region_file_Result_cases:
  assumes "w_open w (path r0) = Inr rf"
    and "scan_region_file w r0 el de = (Return (Result r'), dels)"
  shows "\<exists>st. scan_loop rf el de raster (init_state r0) = Inr st
           \<and> dels = s_deleted st
           \<and> chunks r' =
               (\<lambda>k. if k \<in> fst ` {km \<in> set (metadata rf). shares (s_r st) km}
                    then map_option (\<lambda>c. (fst c, CHUNK_SHARED_OFFSET)) (chunks (s_r st) k)
                    else chunks (s_r st) k)
           \<and> chunk_count r' = s_chunk_count st
           \<and> entities_prob r' = s_entities_prob st"
proof -
  from scan_region_file_Result_elim [OF assms] obtain st where
    st: "scan_loop rf el de raster (init_state r0) = Inr st"
      "\<forall>km\<in>set (metadata rf). snd km = STATUS_CHUNK_OVERLAPPING
         \<longrightarrow> chunks (s_r st) (fst km) \<noteq> None"
    by blast
  from scan_region_file_Result [OF assms(1) st] assms(2)
  have "dels = s_deleted st
           \<and> chunks r' =
               (\<lambda>k. if k \<in> fst ` {km \<in> set (metadata rf). shares (s_r st) km}
                    then map_option (\<lambda>c. (fst c, CHUNK_SHARED_OFFSET)) (chunks (s_r st) k)
                    else chunks (s_r st) k)
           \<and> chunk_count r' = s_chunk_count st
           \<and> entities_prob r' = s_entities_prob st"
    by auto
  with st(1) show ?thesis by blast
qed

lemma shares_wrong_located:
  "k \<in> fst ` {km \<in> set md. shares r km} \<Longrightarrow>
   map_option snd (chunks r k) = Some CHUNK_WRONG_LOCATED"
  unfolding sharing_keys by simp

lemma ex_slot_status_rest:
  assumes "\<And>k. k \<in> set ex_rest \<Longrightarrow> get_chunk rf k = ex_get_chunk k"
  shows "filter (\<lambda>k. slot_status rf r el k = Some s) ex_rest = []"
proof -
  have "\<forall>k\<in>set ex_rest. absent rf k"
    using assms by (rule ex_rest_absent)
  then show ?thesis
    by (simp add: filter_empty_conv slot_status_def slot_record_absent)
qed

lemma ex_many:
  "filter (\<lambda>k. slot_status ex_region_file ex_r 2 k = Some CHUNK_TOO_MANY_ENTITIES) raster
     = [(0, 1)]"
proof -
  have g: "get_coords ex_r = (0, 0)"
    by (simp add: ex_r_def)
  have gc: "get_chunk ex_region_file k = ex_get_chunk k" for k
    by (simp add: ex_region_file_def)
  have s: "slot_status ex_region_file ex_r 2 (0, 0) = Some CHUNK_WRONG_LOCATED"
    "slot_status ex_region_file ex_r 2 (0, 1) = Some CHUNK_TOO_MANY_ENTITIES"
    "slot_status ex_region_file ex_r 2 (0, 2) = Some CHUNK_CORRUPTED"
    "slot_status ex_region_file ex_r 2 (0, 3) = Some CHUNK_OK"
    "slot_status ex_region_file ex_r 2 (0, 4) = Some CHUNK_WRONG_LOCATED"
    unfolding slot_status_def ex_slot_00 [OF gc g] ex_slot_01 [OF gc g] ex_slot_02 [OF gc]
      ex_slot_03 [OF gc g] ex_slot_04 [OF gc g]
    by simp_all
  have r: "filter (\<lambda>k. slot_status ex_region_file ex_r 2 k = Some CHUNK_TOO_MANY_ENTITIES) ex_rest
             = []"
    by (rule ex_slot_status_rest) (simp add: ex_region_file_def)
  show ?thesis
    unfolding raster_split filter_append r ex_prefix_def using s by simp
qed

subsection \<open>The classification of a decoded chunk\<close>

text \<open>
  C2: for a chunk that decodes, \<open>scan_chunk\<close> reads the coordinate that the chunk
  declares and its entity list. When both reads succeed, it returns the chunk with a
  record that holds the number of its entities and the status: \<open>CHUNK_WRONG_LOCATED\<close>
  when the declared coordinate differs from the expected global coordinate, whatever
  the number of entities; otherwise \<open>CHUNK_TOO_MANY_ENTITIES\<close> when the number of
  entities exceeds the limit; otherwise \<open>CHUNK_OK\<close>. When the chunk lacks a tag that is
  read, no status is chosen: the \<open>KeyError\<close> of the lookup leaves \<open>scan_chunk\<close>, also
  when the declared coordinate can be read and differs.
\<close>

theorem scan_chunk_classifies_decoded:
  assumes "get_chunk rf k = Inr ch"
  shows "scan_chunk rf k g el =
     (case get_chunk_data_coords ch of
        Inl e \<Rightarrow> Inl e
      | Inr data_coords \<Rightarrow>
          (case chunk_entities ch of
             Inl e \<Rightarrow> Inl e
           | Inr entities \<Rightarrow>
               Inr (Some ch,
                    Some (Some (length entities),
                          if data_coords \<noteq> g then CHUNK_WRONG_LOCATED
                          else if int (length entities) > el then CHUNK_TOO_MANY_ENTITIES
                          else CHUNK_OK))))
     \<and> (\<forall>e. get_chunk_data_coords ch = Inl e \<or> chunk_entities ch = Inl e
              \<longrightarrow> exc_class e = KeyError)"
proof -
  have "\<forall>e. get_chunk_data_coords ch = Inl e \<or> chunk_entities ch = Inl e
              \<longrightarrow> exc_class e = KeyError"
    using get_chunk_data_coords_KeyError chunk_entities_KeyError by blast
  with scan_chunk_decoded_case [OF assms] show ?thesis
    by (rule conjI)
qed

text \<open>
  The chunk in the slot (0, 0) of the example declares (5, 5) and has three entities,
  one more than the limit 2: it is wrong located. The chunk in the slot (0, 1) has three
  entities and is in its place: it has too many entities with the limit 2, and is
  healthy with the limit 3. In the region where this chunk has no tag \<open>Entities\<close>,
  \<open>scan_chunk\<close> raises the \<open>KeyError\<close> of the lookup.
\<close>

theorem scan_chunk_classifies_decoded_witness:
  "get_chunk ex_region_file (0, 0) = Inr (ex_chunk (5, 5) 3)
   \<and> scan_chunk ex_region_file (0, 0) (0, 0) 2 =
       Inr (Some (ex_chunk (5, 5) 3), Some (Some 3, CHUNK_WRONG_LOCATED))
   \<and> scan_chunk ex_region_file (0, 1) (0, 1) 2 =
       Inr (Some (ex_chunk (0, 1) 3), Some (Some 3, CHUNK_TOO_MANY_ENTITIES))
   \<and> scan_chunk ex_region_file (0, 1) (0, 1) 3 =
       Inr (Some (ex_chunk (0, 1) 3), Some (Some 3, CHUNK_OK))
   \<and> get_chunk ex_region_file_untagged (0, 1) = Inr (ex_chunk_untagged (0, 1))
   \<and> scan_chunk ex_region_file_untagged (0, 1) (5, 5) 2 =
       Inl \<lparr>exc_class = KeyError, exc_msg = ''Tag Entities does not exist'',
            exc_tb = [(''nbt.py'', 1, ''__getitem__'', ''raise KeyError'')]\<rparr>"
proof -
  have h0: "get_chunk ex_region_file (0, 0) = Inr (ex_chunk (5, 5) 3)"
    and h1: "get_chunk ex_region_file (0, 1) = Inr (ex_chunk (0, 1) 3)"
    by (simp_all add: ex_region_file_def ex_get_chunk_def)
  have h2: "get_chunk ex_region_file_untagged (0, 1) = Inr (ex_chunk_untagged (0, 1))"
    by (simp add: ex_region_file_untagged_def)
  have u: "get_chunk_data_coords (ex_chunk_untagged (0, 1)) = Inr (0, 1)"
    "chunk_entities (ex_chunk_untagged (0, 1)) =
       Inl \<lparr>exc_class = KeyError, exc_msg = ''Tag Entities does not exist'',
            exc_tb = [(''nbt.py'', 1, ''__getitem__'', ''raise KeyError'')]\<rparr>"
    by (simp_all add: get_chunk_data_coords_def chunk_entities_def tag_getitem_def
        ex_chunk_untagged_def)
  show ?thesis
    using h0 h2
      scan_chunk_classifies_decoded [OF h0, of "(0, 0)" 2]
      scan_chunk_classifies_decoded [OF h1, of "(0, 1)" 2]
      scan_chunk_classifies_decoded [OF h1, of "(0, 1)" 3]
      scan_chunk_classifies_decoded [OF h2, of "(5, 5)" 2]
    unfolding ex_chunk_reads u
    by simp
qed

subsection \<open>A region file that cannot be opened\<close>

text \<open>
  C4: when opening the region file raises \<open>NoRegionHeader\<close>, \<open>scan_region_file\<close> returns
  the scanned object with the status \<open>REGION_TOO_SMALL\<close>; when it raises \<open>IOError\<close>, with
  the status \<open>REGION_UNREADABLE\<close>. In both cases the scan time is recorded, \<open>scanned\<close> is
  true, every other attribute is the one of the object passed in: no slot is added to
  the chunk map (it is empty for an object created empty), no entity is deleted. The
  function returns the object, not a fault tuple, and the worker task puts it on the
  queue and ends without an exception.
\<close>

theorem scan_region_file_open_failure:
  assumes "w_open w (path r0) = Inl e"
    and "exc_class e = NoRegionHeader \<or> exc_class e = IOError"
  shows "\<exists>r'. scan_region_file w r0 el de = (Return (Result r'), [])
           \<and> r' = r0\<lparr>status := (if exc_class e = NoRegionHeader then REGION_TOO_SMALL
                                  else REGION_UNREADABLE),
                       scan_time := Some (w_time w), scanned := True\<rparr>
           \<and> chunks r' = chunks r0
           \<and> scan_time r' = Some (w_time w)
           \<and> scanned r'
           \<and> multiprocess_scan_regionfile w attrs r0 =
               (None, attrs\<lparr>mp_q := mp_q attrs @ [Result r']\<rparr>, [])"
proof -
  have "scan_region_file w r0 el' de' =
          (Return (Result (r0\<lparr>status := (if exc_class e = NoRegionHeader then REGION_TOO_SMALL
                                          else REGION_UNREADABLE),
                               scan_time := Some (w_time w), scanned := True\<rparr>)), [])" for el' de'
    using assms(2)
    unfolding scan_region_file_def scan_region_try_def Let_def assms(1) init_state_def
    by auto
  then show ?thesis
    by (simp add: multiprocess_scan_regionfile_def q_put_def)
qed

text \<open>
  A file without header and an unreadable file, scanned into the example object, whose
  chunk map is empty.
\<close>

theorem scan_region_file_open_failure_witness:
  "(\<exists>r'. scan_region_file (ex_world (Inl (ex_exc NoRegionHeader ''too small''))) ex_r 2 False
            = (Return (Result r'), [])
         \<and> status r' = REGION_TOO_SMALL \<and> chunks r' = Map.empty
         \<and> scan_time r' = Some 1000 \<and> scanned r')
   \<and> (\<exists>r'. scan_region_file (ex_world (Inl (ex_exc IOError ''denied''))) ex_r 2 False
            = (Return (Result r'), [])
         \<and> status r' = REGION_UNREADABLE \<and> chunks r' = Map.empty
         \<and> scan_time r' = Some 1000 \<and> scanned r')"
proof -
  have a: "w_open (ex_world (Inl (ex_exc NoRegionHeader ''too small''))) (path ex_r)
             = Inl (ex_exc NoRegionHeader ''too small'')"
    and b: "w_open (ex_world (Inl (ex_exc IOError ''denied''))) (path ex_r)
             = Inl (ex_exc IOError ''denied'')"
    by (simp_all add: ex_world_def)
  have a': "exc_class (ex_exc NoRegionHeader ''too small'') = NoRegionHeader
              \<or> exc_class (ex_exc NoRegionHeader ''too small'') = IOError"
    and b': "exc_class (ex_exc IOError ''denied'') = NoRegionHeader
              \<or> exc_class (ex_exc IOError ''denied'') = IOError"
    by (simp_all add: ex_exc_def)
  show ?thesis
    using scan_region_file_open_failure [OF a a', of 2 False]
      scan_region_file_open_failure [OF b b', of 2 False]
    by (auto simp: ex_exc_def ex_world_def ex_r_def)
qed

subsection \<open>Slots that fail to decode\<close>

text \<open>
  C7: when decoding the chunk raises \<open>RegionHeaderError\<close>, \<open>ChunkDataError\<close> or
  \<open>ChunkHeaderError\<close>, \<open>scan_chunk\<close> sets the status \<open>CHUNK_CORRUPTED\<close>, a status text
  that ends with the message of the exception, and no number of entities; it returns
  no chunk and the record \<open>(None, CHUNK_CORRUPTED)\<close>. The loop of \<open>scan_region_file\<close>
  stores the record, counts the slot as corrupted and goes on with the coordinates that
  follow.
\<close>

theorem scan_chunk_decode_error_corrupted:
  assumes "get_chunk rf k = Inl e"
    and "exc_class e = RegionHeaderError \<or> exc_class e = ChunkDataError
         \<or> exc_class e = ChunkHeaderError"
  shows "scan_chunk_locals rf k g el =
           Inr \<lparr>l_chunk = None, l_data_coords = None, l_num_entities = None,
                l_status = CHUNK_CORRUPTED,
                l_status_text =
                  (if exc_class e = RegionHeaderError then ''Region header error: ''
                   else if exc_class e = ChunkDataError then ''Chunk data error: ''
                   else ''Chunk herader error: '') @ exc_msg e\<rparr>
         \<and> scan_chunk rf k g el = Inr (None, Some (None, CHUNK_CORRUPTED))
         \<and> scan_loop rf el de (k # rest) st =
             scan_loop rf el de rest
               (st\<lparr>s_r := (s_r st)\<lparr>chunks := (chunks (s_r st))(k \<mapsto> (None, CHUNK_CORRUPTED))\<rparr>,
                    s_chunk_count := s_chunk_count st + 1,
                    s_corrupted := s_corrupted st + 1\<rparr>)"
proof -
  have l: "scan_chunk_locals rf k g el =
           Inr \<lparr>l_chunk = None, l_data_coords = None, l_num_entities = None,
                l_status = CHUNK_CORRUPTED,
                l_status_text =
                  (if exc_class e = RegionHeaderError then ''Region header error: ''
                   else if exc_class e = ChunkDataError then ''Chunk data error: ''
                   else ''Chunk herader error: '') @ exc_msg e\<rparr>"
    using assms(2) unfolding scan_chunk_undecoded [OF assms(1)] scan_chunk_except_def by auto
  have c: "scan_chunk rf k g' el = Inr (None, Some (None, CHUNK_CORRUPTED))" for g'
    using assms by (rule scan_chunk_corrupted_eq)
  have s: "scan_slot rf el de k st =
             Inr (st\<lparr>s_r := (s_r st)\<lparr>chunks := (chunks (s_r st))(k \<mapsto> (None, CHUNK_CORRUPTED))\<rparr>,
                      s_chunk_count := s_chunk_count st + 1,
                      s_corrupted := s_corrupted st + 1\<rparr>)"
    unfolding scan_slot_def Let_def c by simp
  show ?thesis
    unfolding l c by (simp add: s)
qed

text \<open>
  The slot (0, 2) of the example raises \<open>RegionHeaderError\<close> with the message
  \<open>bad offset\<close>; the scan of the slots (0, 2), (0, 3) goes on to (0, 3) and ends.
\<close>

theorem scan_chunk_decode_error_corrupted_witness:
  "scan_chunk_locals ex_region_file (0, 2) (0, 2) 2 =
     Inr \<lparr>l_chunk = None, l_data_coords = None, l_num_entities = None,
          l_status = CHUNK_CORRUPTED, l_status_text = ''Region header error: bad offset''\<rparr>
   \<and> scan_chunk ex_region_file (0, 2) (0, 2) 2 = Inr (None, Some (None, CHUNK_CORRUPTED))
   \<and> (\<exists>st. scan_loop ex_region_file 2 False [(0, 2), (0, 3)] (init_state ex_r) = Inr st
          \<and> chunks (s_r st) (0, 2) = Some (None, CHUNK_CORRUPTED)
          \<and> chunks (s_r st) (0, 3) = Some (Some 0, CHUNK_OK)
          \<and> s_corrupted st = 1 \<and> s_chunk_count st = 2)"
proof -
  have a: "get_chunk ex_region_file (0, 2) = Inl (ex_exc RegionHeaderError ''bad offset'')"
    by (simp add: ex_region_file_def ex_get_chunk_def)
  have b: "exc_class (ex_exc RegionHeaderError ''bad offset'') = RegionHeaderError
           \<or> exc_class (ex_exc RegionHeaderError ''bad offset'') = ChunkDataError
           \<or> exc_class (ex_exc RegionHeaderError ''bad offset'') = ChunkHeaderError"
    by (simp add: ex_exc_def)
  have d: "get_chunk ex_region_file (0, 3) = Inr (ex_chunk (0, 3) 0)"
    by (simp add: ex_region_file_def ex_get_chunk_def)
  have s: "scan_slot ex_region_file 2 False (0, 3) st =
             Inr (st\<lparr>s_r := (s_r st)\<lparr>chunks := (chunks (s_r st))((0, 3) \<mapsto> (Some 0, CHUNK_OK))\<rparr>,
                      s_chunk_count := s_chunk_count st + 1\<rparr>)"
    if "get_coords (s_r st) = (0, 0)" for st
    unfolding scan_slot_def Let_def scan_chunk_decoded_eq [OF d ex_chunk_reads]
    by (simp add: get_global_chunk_coords_def that)
  show ?thesis
    using scan_chunk_decode_error_corrupted [OF a b, of "(0, 2)" 2 False "[(0, 3)]" "init_state ex_r"]
    by (simp add: ex_exc_def s init_state_def ex_r_def)
qed

subsection \<open>Taking one result from the queue\<close>

text \<open>
  C8: \<open>get_last_result\<close> does not wait. On an empty queue it returns \<open>None\<close> and changes
  nothing. When the item it takes is a fault tuple it raises \<open>ChildProcessException\<close>
  with the scanned object of the tuple, the exception type, the exception value and the
  frames. When the item is a scanned object it writes it into the regionset at the
  coordinates of the object, replacing what was there, and returns it. No call ends
  waiting for an item.
\<close>

theorem get_last_result_nonblocking:
  "get_last_result (self\<lparr>a_queue := []\<rparr>) = (Returned None, self\<lparr>a_queue := []\<rparr>)
   \<and> get_last_result (self\<lparr>a_queue := FaultTuple r0 info # q\<rparr>) =
       (Raised \<lparr>cpe_scanned_file = r0, cpe_exc_type = fst info,
                cpe_exc_class = fst (snd info), cpe_tb_text = snd (snd info)\<rparr>,
        self\<lparr>a_queue := q\<rparr>)
   \<and> get_last_result (self\<lparr>a_queue := Result r # q\<rparr>) =
       (Returned (Some r),
        self\<lparr>a_queue := q,
             a_regionset :=
               (a_regionset self)\<lparr>regions := (regions (a_regionset self))(get_coords r \<mapsto> r)\<rparr>,
             a_str_last_scanned := Some (get_name (a_regionset self) @ '': '' @ filename r)\<rparr>)
   \<and> fst (get_last_result self) \<noteq> Blocked"
proof -
  have "fst (get_last_result self) \<noteq> Blocked"
    by (cases "a_queue self")
      (auto simp: get_last_result_def Let_def q_empty_def q_get_def split: queue_item.splits)
  then show ?thesis
    by (simp add: get_last_result_def Let_def q_empty_def q_get_def ChildProcessException_def
        regionset_setitem_def)
qed

text \<open>
  The example scanner with an empty queue, with a fault tuple and with a scanned object
  at the head of the queue.
\<close>

theorem get_last_result_nonblocking_witness:
  "get_last_result (ex_scanner []) = (Returned None, ex_scanner [])
   \<and> fst (get_last_result (ex_scanner [FaultTuple ex_r (KeyError, ''(0, 7)'', ex_tb), Result ex_r])) =
       Raised \<lparr>cpe_scanned_file = ex_r, cpe_exc_type = KeyError, cpe_exc_class = ''(0, 7)'',
               cpe_tb_text = ex_tb\<rparr>
   \<and> a_queue (snd (get_last_result (ex_scanner [FaultTuple ex_r (KeyError, ''(0, 7)'', ex_tb), Result ex_r])))
       = [Result ex_r]
   \<and> fst (get_last_result (ex_scanner [Result ex_r])) = Returned (Some ex_r)
   \<and> regions (a_regionset (snd (get_last_result (ex_scanner [Result ex_r])))) (0, 0) = Some ex_r
   \<and> a_queue (snd (get_last_result (ex_scanner [Result ex_r]))) = []"
proof -
  have e: "ex_scanner q = (ex_scanner [])\<lparr>a_queue := q\<rparr>" for q
    by (simp add: ex_scanner_def)
  have g: "get_coords ex_r = (0, 0)"
    by (simp add: ex_r_def)
  show ?thesis
    using get_last_result_nonblocking [of "ex_scanner []" ex_r "(KeyError, ''(0, 7)'', ex_tb)"
        "[Result ex_r]" ex_r]
      get_last_result_nonblocking [of "ex_scanner []" ex_r "(KeyError, ''(0, 7)'', ex_tb)"
        "[]" ex_r]
    unfolding e [of "[FaultTuple ex_r (KeyError, ''(0, 7)'', ex_tb), Result ex_r]"]
      e [of "[Result ex_r]"]
    by (simp add: g) (simp add: ex_scanner_def)
qed

subsection \<open>Exceptions at the boundary of the task\<close>

text \<open>
  C3: when the body of \<open>scan_region_file\<close> raises an exception \<open>e\<close>, with the scanned
  object in the state \<open>s_r st\<close>, and \<open>e\<close> is not \<open>KeyboardInterrupt\<close>, the function
  returns the tuple of that partly filled object and of the type, the value and the
  extracted frames of \<open>e\<close>; the worker task puts this tuple on the queue and ends
  without an exception. For \<open>KeyboardInterrupt\<close> the function exits with status 1 and
  nothing is put on the queue. The consumer raises \<open>ChildProcessException\<close> exactly for
  the items that pass the tuple test, whatever exception they carry.
\<close>

theorem scan_region_file_fault_tuple:
  assumes "scan_region_try w r0 el de = Inl (e, st)"
  shows "(if exc_class e = KeyboardInterrupt then
            scan_region_file w r0 el de = (SystemExit 1, s_deleted st)
            \<and> multiprocess_scan_regionfile w
                 \<lparr>mp_q = q, mp_entity_limit = el, mp_remove_entities = de\<rparr> r0 =
                (Some 1, \<lparr>mp_q = q, mp_entity_limit = el, mp_remove_entities = de\<rparr>, s_deleted st)
          else
            scan_region_file w r0 el de =
              (Return (FaultTuple (s_r st) (exc_class e, exc_msg e, exc_tb e)), s_deleted st)
            \<and> multiprocess_scan_regionfile w
                 \<lparr>mp_q = q, mp_entity_limit = el, mp_remove_entities = de\<rparr> r0 =
                (None,
                 \<lparr>mp_q = q @ [FaultTuple (s_r st) (exc_class e, exc_msg e, exc_tb e)],
                  mp_entity_limit = el, mp_remove_entities = de\<rparr>,
                 s_deleted st)
            \<and> is_tuple (FaultTuple (s_r st) (exc_class e, exc_msg e, exc_tb e))
            \<and> get_last_result
                 (self\<lparr>a_queue := FaultTuple (s_r st) (exc_class e, exc_msg e, exc_tb e) # q'\<rparr>) =
                (Raised \<lparr>cpe_scanned_file = s_r st, cpe_exc_type = exc_class e,
                         cpe_exc_class = exc_msg e, cpe_tb_text = exc_tb e\<rparr>,
                 self\<lparr>a_queue := q'\<rparr>))
         \<and> (\<forall>item. (\<exists>c. fst (get_last_result (self\<lparr>a_queue := item # q'\<rparr>)) = Raised c)
                      = is_tuple item)"
proof -
  have shape: "(\<exists>c. fst (get_last_result (self\<lparr>a_queue := item # q'\<rparr>)) = Raised c)
                 = is_tuple item" for item
    by (cases item) (simp_all add: get_last_result_def Let_def q_empty_def q_get_def)
  have f: "scan_region_file w r0 el de =
             (if exc_class e = KeyboardInterrupt then (SystemExit 1, s_deleted st)
              else (Return (FaultTuple (s_r st) (exc_class e, exc_msg e, exc_tb e)), s_deleted st))"
    by (simp add: scan_region_file_def assms sys_exc_info_def)
  show ?thesis
    using shape
    by (simp add: f multiprocess_scan_regionfile_def q_put_def get_last_result_def Let_def
        q_empty_def q_get_def ChildProcessException_def)
qed

text \<open>
  In the example, decoding the slot (0, 2) raises a \<open>ValueError\<close>, when the slots (0, 0)
  and (0, 1) are stored: the tuple carries the object with these two slots.
\<close>

theorem scan_region_file_fault_tuple_witness:
  "scan_region_try (ex_world (Inr ex_region_file_raising)) ex_r 2 False =
     Inl (ex_exc (OtherException ''ValueError'') ''bad tag'', ex_state_partial)
   \<and> scan_region_file (ex_world (Inr ex_region_file_raising)) ex_r 2 False =
       (Return (FaultTuple (s_r ex_state_partial)
          (OtherException ''ValueError'', ''bad tag'', [(''region.py'', 1, ''get_chunk'', ''raise'')])),
        [])
   \<and> chunks (s_r ex_state_partial) (0, 1) = Some (Some 3, CHUNK_TOO_MANY_ENTITIES)
   \<and> chunks (s_r ex_state_partial) (0, 3) = None
   \<and> multiprocess_scan_regionfile (ex_world (Inr ex_region_file_raising))
        \<lparr>mp_q = [], mp_entity_limit = 2, mp_remove_entities = False\<rparr> ex_r =
       (None,
        \<lparr>mp_q = [FaultTuple (s_r ex_state_partial)
            (OtherException ''ValueError'', ''bad tag'', [(''region.py'', 1, ''get_chunk'', ''raise'')])],
         mp_entity_limit = 2, mp_remove_entities = False\<rparr>,
        [])
   \<and> fst (get_last_result (ex_scanner [FaultTuple (s_r ex_state_partial)
            (OtherException ''ValueError'', ''bad tag'', [(''region.py'', 1, ''get_chunk'', ''raise'')])])) =
       Raised \<lparr>cpe_scanned_file = s_r ex_state_partial,
               cpe_exc_type = OtherException ''ValueError'', cpe_exc_class = ''bad tag'',
               cpe_tb_text = [(''region.py'', 1, ''get_chunk'', ''raise'')]\<rparr>"
proof -
  have o: "w_open (ex_world (Inr ex_region_file_raising)) (path ex_r) = Inr ex_region_file_raising"
    by (simp add: ex_world_def)
  have t: "scan_region_try (ex_world (Inr ex_region_file_raising)) ex_r 2 False =
     Inl (ex_exc (OtherException ''ValueError'') ''bad tag'', ex_state_partial)"
    by (simp add: scan_region_try_opened [OF o] ex_scan_loop_raising)
  have e: "ex_scanner q = (ex_scanner [])\<lparr>a_queue := q\<rparr>" for q
    by (simp add: ex_scanner_def)
  have c: "chunks (s_r ex_state_partial) (0, 1) = Some (Some 3, CHUNK_TOO_MANY_ENTITIES)"
    "chunks (s_r ex_state_partial) (0, 3) = None" "s_deleted ex_state_partial = []"
    by (simp_all add: ex_state_partial_def ex_r_def)
  show ?thesis
    using scan_region_file_fault_tuple [OF t, where q = "[]" and self = "ex_scanner []" and q' = "[]"] c
    unfolding e [of "[FaultTuple r i]" for r i]
    by (simp add: t ex_exc_def)
qed

subsection \<open>The records that the post-pass reads\<close>

text \<open>
  C10: after the loops, the post-pass reads \<open>r[k]\<close> for every key \<open>k\<close> of the metadata
  that carries the overlap flag. When every such key has a stored record, the scan
  returns the scanned object. When one of them has none, the lookup raises \<open>KeyError\<close>
  for such a key, the exception leaves the post-pass and reaches the handler of all
  exceptions: \<open>scan_region_file\<close> returns the fault tuple, with the object as the loops
  left it, no record reclassified. An absent slot with the overlap flag, for which
  no record was stored before the scan, is such a key.
\<close>

theorem post_pass_lookup_needs_stored_record:
  assumes "w_open w (path r0) = Inr rf"
    and "scan_loop rf el de raster (init_state r0) = Inr st"
  shows "(if \<forall>k\<in>overlapping rf. chunks (s_r st) k \<noteq> None
          then \<exists>r'. scan_region_file w r0 el de = (Return (Result r'), s_deleted st)
          else \<exists>k\<in>overlapping rf. chunks (s_r st) k = None
                 \<and> scan_region_file w r0 el de =
                     (Return (FaultTuple (s_r st)
                        (KeyError, ''('' @ str_nat (fst k) @ '', '' @ str_nat (snd k) @ '')'',
                         w_traceback w)),
                      s_deleted st))
         \<and> (\<forall>k\<in>overlapping rf. absent rf k \<and> chunks r0 k = None \<longrightarrow> chunks (s_r st) k = None)"
proof -
  have a: "\<forall>k\<in>overlapping rf. absent rf k \<and> chunks r0 k = None \<longrightarrow> chunks (s_r st) k = None"
    using scan_loop_absent_unstored [OF assms(2)] by (simp add: init_state_def)
  show ?thesis
  proof (cases "\<forall>k\<in>overlapping rf. chunks (s_r st) k \<noteq> None")
    case True
    then have "\<forall>km\<in>set (metadata rf). snd km = STATUS_CHUNK_OVERLAPPING
                 \<longrightarrow> chunks (s_r st) (fst km) \<noteq> None"
      by (simp only: overlapping_stored_iff)
    then have res: "\<exists>r'. scan_region_file w r0 el de = (Return (Result r'), s_deleted st)"
      by (intro exI, rule scan_region_file_Result [OF assms])
    show ?thesis
      by (rule conjI, subst if_P [OF True], rule res, rule a)
  next
    case False
    then obtain k0 where "k0 \<in> overlapping rf" "chunks (s_r st) k0 = None"
      by blast
    then have "\<exists>k. (k, STATUS_CHUNK_OVERLAPPING) \<in> set (metadata rf) \<and> chunks (s_r st) k = None"
      unfolding overlapping_def by blast
    from sharing_Inl_key [OF this, of "w_traceback w"] obtain k where
      k: "(k, STATUS_CHUNK_OVERLAPPING) \<in> set (metadata rf)" "chunks (s_r st) k = None"
        "sharing (w_traceback w) (metadata rf) (s_r st) =
           Inl \<lparr>exc_class = KeyError,
                exc_msg = ''('' @ str_nat (fst k) @ '', '' @ str_nat (snd k) @ '')'',
                exc_tb = w_traceback w\<rparr>"
      by blast
    have "scan_region_file w r0 el de =
            (Return (FaultTuple (s_r st)
               (KeyError, ''('' @ str_nat (fst k) @ '', '' @ str_nat (snd k) @ '')'',
                w_traceback w)),
             s_deleted st)"
      by (simp add: scan_region_file_def scan_region_try_opened [OF assms(1)] assms(2)
          post_pass_def k(3) sys_exc_info_def)
    moreover have "k \<in> overlapping rf"
      using k(1) by (simp add: overlapping_def)
    ultimately have fault: "\<exists>k\<in>overlapping rf. chunks (s_r st) k = None
                 \<and> scan_region_file w r0 el de =
                     (Return (FaultTuple (s_r st)
                        (KeyError, ''('' @ str_nat (fst k) @ '', '' @ str_nat (snd k) @ '')'',
                         w_traceback w)),
                      s_deleted st)"
      using k(2) by blast
    show ?thesis
      by (rule conjI, subst if_not_P [OF False], rule fault, rule a)
  qed
qed

text \<open>
  In the example with the overlap flag on the absent slot (0, 7), the scan ends with
  the fault tuple of a \<open>KeyError\<close> for that key; the slot (0, 0) is still wrong located
  in the object of the tuple.
\<close>

theorem post_pass_lookup_needs_stored_record_witness:
  "w_open (ex_world (Inr ex_region_file_flagged)) (path ex_r) = Inr ex_region_file_flagged
   \<and> scan_loop ex_region_file_flagged 2 False raster (init_state ex_r) = Inr (ex_state False)
   \<and> (0, 7) \<in> overlapping ex_region_file_flagged
   \<and> absent ex_region_file_flagged (0, 7)
   \<and> scan_region_file (ex_world (Inr ex_region_file_flagged)) ex_r 2 False =
       (Return (FaultTuple (s_r (ex_state False)) (KeyError, ''(0, 7)'', ex_tb)), [])
   \<and> chunks (s_r (ex_state False)) (0, 0) = Some (Some 3, CHUNK_WRONG_LOCATED)"
proof -
  have o: "w_open (ex_world (Inr ex_region_file_flagged)) (path ex_r) = Inr ex_region_file_flagged"
    by (simp add: ex_world_def)
  have l: "scan_loop ex_region_file_flagged 2 False raster (init_state ex_r) = Inr (ex_state False)"
    by (rule ex_scan_loop) (simp add: ex_region_file_flagged_def)
  have ov: "overlapping ex_region_file_flagged = {(0, 0), (0, 3), (0, 7)}"
    by (auto simp: overlapping_def ex_region_file_flagged_def ex_metadata_def)
  have ab: "absent ex_region_file_flagged (0, 7)"
    by (simp add: absent_def ex_region_file_flagged_def ex_get_chunk_def ex_exc_def)
  have c: "chunks (s_r (ex_state False)) (0, 0) = Some (Some 3, CHUNK_WRONG_LOCATED)"
    "chunks (s_r (ex_state False)) (0, 3) = Some (Some 0, CHUNK_OK)"
    "chunks (s_r (ex_state False)) (0, 7) = None"
    "s_deleted (ex_state False) = []"
    by (simp_all add: ex_state_def ex_r_def)
  have s: "str_nat 0 = ''0''" "str_nat 7 = ''7''"
    by (simp_all add: str_nat.simps)
  have t: "w_traceback (ex_world (Inr ex_region_file_flagged)) = ex_tb"
    by (simp add: ex_world_def)
  show ?thesis
    using post_pass_lookup_needs_stored_record [OF o l] o l ab c
    unfolding ov t
    by (simp add: s)
qed

subsection \<open>Chunks that share their offset\<close>

text \<open>
  C1: let the loops over the 1024 local coordinates end in the state \<open>st\<close>, and let
  every key of the metadata with the overlap flag have a stored record (the keys of
  the metadata, a dictionary, are distinct). Then \<open>scan_region_file\<close> returns the
  scanned object, in which exactly the slots that have the overlap flag and whose record
  after the loops is \<open>CHUNK_WRONG_LOCATED\<close> are set to \<open>CHUNK_SHARED_OFFSET\<close>, with their
  number of entities kept; every other slot, an overlapping slot with another status
  among them, is as the loops left it. \<open>shared_offset\<close> is the number of the
  reclassified slots, and \<open>wrong_located_chunks\<close> is the counter of the loops, the
  number of coordinates that \<open>scan_chunk\<close> classified \<open>CHUNK_WRONG_LOCATED\<close>: the
  post-pass does not lower it.
\<close>

theorem post_pass_reclassifies_shared_offset:
  assumes "w_open w (path r0) = Inr rf"
    and "scan_loop rf el de raster (init_state r0) = Inr st"
    and "\<forall>k\<in>overlapping rf. chunks (s_r st) k \<noteq> None"
    and "distinct (map fst (metadata rf))"
  shows "\<exists>r'. scan_region_file w r0 el de = (Return (Result r'), s_deleted st)
           \<and> (\<forall>k. chunks r' k =
                 (if k \<in> overlapping rf
                     \<and> map_option snd (chunks (s_r st) k) = Some CHUNK_WRONG_LOCATED
                  then map_option (\<lambda>c. (fst c, CHUNK_SHARED_OFFSET)) (chunks (s_r st) k)
                  else chunks (s_r st) k))
           \<and> shared_offset r' =
               card {k \<in> overlapping rf.
                       map_option snd (chunks (s_r st) k) = Some CHUNK_WRONG_LOCATED}
           \<and> wrong_located_chunks r' = s_wrong st
           \<and> s_wrong st =
               length (filter (\<lambda>k. slot_status rf r0 el k = Some CHUNK_WRONG_LOCATED) raster)"
proof -
  have stored: "\<forall>km\<in>set (metadata rf). snd km = STATUS_CHUNK_OVERLAPPING
                 \<longrightarrow> chunks (s_r st) (fst km) \<noteq> None"
    using assms(3) by (simp only: overlapping_stored_iff)
  let ?S = "{k \<in> overlapping rf. map_option snd (chunks (s_r st) k) = Some CHUNK_WRONG_LOCATED}"
  let ?r' = "(s_r st)
        \<lparr>chunks := (\<lambda>k. if k \<in> fst ` {km \<in> set (metadata rf). shares (s_r st) km}
                         then map_option (\<lambda>c. (fst c, CHUNK_SHARED_OFFSET)) (chunks (s_r st) k)
                         else chunks (s_r st) k),
         chunk_count := s_chunk_count st,
         corrupted_chunks := s_corrupted st,
         wrong_located_chunks := s_wrong st,
         entities_prob := s_entities_prob st,
         shared_offset := length (filter (shares (s_r st)) (metadata rf)),
         scan_time := Some (w_time w),
         status := REGION_OK,
         scanned := True\<rparr>"
  have res: "scan_region_file w r0 el de = (Return (Result ?r'), s_deleted st)"
    by (rule scan_region_file_Result [OF assms(1,2) stored])
  have ch: "\<forall>k. chunks ?r' k =
                 (if k \<in> overlapping rf
                     \<and> map_option snd (chunks (s_r st) k) = Some CHUNK_WRONG_LOCATED
                  then map_option (\<lambda>c. (fst c, CHUNK_SHARED_OFFSET)) (chunks (s_r st) k)
                  else chunks (s_r st) k)"
    by (simp add: overlapping_sharing)
  have sh: "shared_offset ?r' = card ?S"
    by (simp add: sharing_count [OF assms(4)] overlapping_sharing)
  have wr: "wrong_located_chunks ?r' = s_wrong st"
    by simp
  have cnt: "s_wrong st =
               length (filter (\<lambda>k. slot_status rf r0 el k = Some CHUNK_WRONG_LOCATED) raster)"
    using scan_loop_wrong [OF assms(2)] by (simp add: init_state_def)
  from res ch sh wr cnt show ?thesis
    by blast
qed

text \<open>
  In the example the slots (0, 0) and (0, 3) have the overlap flag; (0, 0) and (0, 4)
  are wrong located, (0, 3) is healthy. Only (0, 0) becomes \<open>CHUNK_SHARED_OFFSET\<close>,
  \<open>shared_offset\<close> is 1 and \<open>wrong_located_chunks\<close> is 2.
\<close>

theorem post_pass_reclassifies_shared_offset_witness:
  "\<exists>r'. scan_region_file (ex_world (Inr ex_region_file)) ex_r 2 False = (Return (Result r'), [])
     \<and> chunks r' (0, 0) = Some (Some 3, CHUNK_SHARED_OFFSET)
     \<and> chunks r' (0, 3) = Some (Some 0, CHUNK_OK)
     \<and> chunks r' (0, 4) = Some (Some 0, CHUNK_WRONG_LOCATED)
     \<and> shared_offset r' = 1
     \<and> wrong_located_chunks r' = 2"
proof -
  have o: "w_open (ex_world (Inr ex_region_file)) (path ex_r) = Inr ex_region_file"
    by (simp add: ex_world_def)
  have l: "scan_loop ex_region_file 2 False raster (init_state ex_r) = Inr (ex_state False)"
    by (rule ex_scan_loop) (simp add: ex_region_file_def)
  have ov: "overlapping ex_region_file = {(0, 0), (0, 3)}"
    by (auto simp: overlapping_def ex_region_file_def ex_metadata_def)
  have c: "chunks (s_r (ex_state False)) (0, 0) = Some (Some 3, CHUNK_WRONG_LOCATED)"
    "chunks (s_r (ex_state False)) (0, 3) = Some (Some 0, CHUNK_OK)"
    "chunks (s_r (ex_state False)) (0, 4) = Some (Some 0, CHUNK_WRONG_LOCATED)"
    "s_deleted (ex_state False) = []" "s_wrong (ex_state False) = 2"
    by (simp_all add: ex_state_def ex_r_def)
  have st: "\<forall>k\<in>overlapping ex_region_file. chunks (s_r (ex_state False)) k \<noteq> None"
    unfolding ov using c by simp
  have d: "distinct (map fst (metadata ex_region_file))"
    by (simp add: ex_region_file_def ex_metadata_def)
  have S: "{k \<in> overlapping ex_region_file.
              map_option snd (chunks (s_r (ex_state False)) k) = Some CHUNK_WRONG_LOCATED}
           = {(0, 0)}"
    unfolding ov using c by auto
  from post_pass_reclassifies_shared_offset [OF o l st d] obtain r' where
    r: "scan_region_file (ex_world (Inr ex_region_file)) ex_r 2 False
          = (Return (Result r'), s_deleted (ex_state False))"
      "\<forall>k. chunks r' k =
                 (if k \<in> overlapping ex_region_file
                     \<and> map_option snd (chunks (s_r (ex_state False)) k) = Some CHUNK_WRONG_LOCATED
                  then map_option (\<lambda>c. (fst c, CHUNK_SHARED_OFFSET)) (chunks (s_r (ex_state False)) k)
                  else chunks (s_r (ex_state False)) k)"
      "shared_offset r' =
               card {k \<in> overlapping ex_region_file.
                       map_option snd (chunks (s_r (ex_state False)) k) = Some CHUNK_WRONG_LOCATED}"
      "wrong_located_chunks r' = s_wrong (ex_state False)"
    by blast
  have "chunks r' (0, 0) = Some (Some 3, CHUNK_SHARED_OFFSET)"
    "chunks r' (0, 3) = Some (Some 0, CHUNK_OK)"
    "chunks r' (0, 4) = Some (Some 0, CHUNK_WRONG_LOCATED)"
    using c unfolding r(2) [rule_format] ov by simp_all
  moreover have "shared_offset r' = 1"
    unfolding r(3) S by simp
  moreover have "wrong_located_chunks r' = 2"
    unfolding r(4) using c(5) .
  ultimately show ?thesis
    using r(1) c(4) by auto
qed

subsection \<open>Chunks with too many entities\<close>

text \<open>
  C5: in a scan that returns the scanned object, take the coordinates that \<open>scan_chunk\<close>
  classifies \<open>CHUNK_TOO_MANY_ENTITIES\<close>. With deletion enabled, \<open>delete_entities\<close> is
  called once for each of them, in the order of the scan, their records are
  \<open>(0, CHUNK_OK)\<close> and \<open>entities_prob\<close> is 0. With deletion disabled, nothing is deleted,
  their records are the ones that \<open>scan_chunk\<close> returned and \<open>entities_prob\<close> is their
  number. So a scan never both deletes and counts. In the loop body: such a chunk is
  stored and counted in \<open>chunk_count\<close>; then, with deletion, its coordinate is added to
  the deletions and its record is replaced, \<open>entities_prob\<close> unchanged; without,
  \<open>entities_prob\<close> grows by one and nothing else changes.
\<close>

theorem too_many_entities_deleted_or_counted:
  assumes "w_open w (path r0) = Inr rf"
    and "scan_region_file w r0 el de = (Return (Result r'), dels)"
  shows "dels =
           (if de then filter (\<lambda>k. slot_status rf r0 el k = Some CHUNK_TOO_MANY_ENTITIES) raster
            else [])
         \<and> entities_prob r' =
             (if de then 0
              else length (filter (\<lambda>k. slot_status rf r0 el k = Some CHUNK_TOO_MANY_ENTITIES) raster))
         \<and> (\<forall>k\<in>set raster. slot_status rf r0 el k = Some CHUNK_TOO_MANY_ENTITIES \<longrightarrow>
               chunks r' k = (if de then Some (Some 0, CHUNK_OK) else slot_record rf r0 el k))
         \<and> (dels = [] \<or> entities_prob r' = 0)
         \<and> (\<forall>st k n. slot_record rf (s_r st) el k = Some (n, CHUNK_TOO_MANY_ENTITIES) \<longrightarrow>
               scan_slot rf el de k st =
                 Inr (if de then
                        st\<lparr>s_r := (s_r st)\<lparr>chunks := (chunks (s_r st))(k \<mapsto> (Some 0, CHUNK_OK))\<rparr>,
                           s_chunk_count := s_chunk_count st + 1,
                           s_deleted := s_deleted st @ [k]\<rparr>
                      else
                        st\<lparr>s_r := (s_r st)\<lparr>chunks :=
                                     (chunks (s_r st))(k \<mapsto> (n, CHUNK_TOO_MANY_ENTITIES))\<rparr>,
                           s_chunk_count := s_chunk_count st + 1,
                           s_entities_prob := s_entities_prob st + 1\<rparr>))"
proof -
  let ?P = "\<lambda>k. slot_status rf r0 el k = Some CHUNK_TOO_MANY_ENTITIES"
  from scan_region_file_Result_cases [OF assms] obtain st where
    st: "scan_loop rf el de raster (init_state r0) = Inr st"
    and d: "dels = s_deleted st"
    and ch: "chunks r' =
               (\<lambda>k. if k \<in> fst ` {km \<in> set (metadata rf). shares (s_r st) km}
                    then map_option (\<lambda>c. (fst c, CHUNK_SHARED_OFFSET)) (chunks (s_r st) k)
                    else chunks (s_r st) k)"
    and ep: "entities_prob r' = s_entities_prob st"
    by blast
  have dels: "dels = (if de then filter ?P raster else [])"
    using scan_loop_deleted [OF st] by (simp add: d init_state_def)
  have prob: "entities_prob r' = (if de then 0 else length (filter ?P raster))"
    using scan_loop_entities_prob [OF st] by (simp add: ep init_state_def)
  have slot: "chunks r' k = Some (stored de c)"
    if k: "k \<in> set raster" and c: "slot_record rf r0 el k = Some c"
      and s: "snd c = CHUNK_TOO_MANY_ENTITIES" for k c
  proof -
    have a: "chunks (s_r st) k = Some (stored de c)"
      using scan_loop_chunks [OF st, of k] k c by (simp add: init_state_def)
    have "k \<notin> fst ` {km \<in> set (metadata rf). shares (s_r st) km}"
    proof
      assume "k \<in> fst ` {km \<in> set (metadata rf). shares (s_r st) km}"
      from shares_wrong_located [OF this] a s show False
        by (simp add: stored_status split: if_splits)
    qed
    then show ?thesis
      by (simp add: ch a)
  qed
  have rec: "\<forall>k\<in>set raster. ?P k \<longrightarrow>
               chunks r' k = (if de then Some (Some 0, CHUNK_OK) else slot_record rf r0 el k)"
  proof (intro ballI impI)
    fix k
    assume k: "k \<in> set raster" and p: "?P k"
    from p obtain c where c: "slot_record rf r0 el k = Some c" "snd c = CHUNK_TOO_MANY_ENTITIES"
      by (auto simp: slot_status_def)
    from slot [OF k c] c
    show "chunks r' k = (if de then Some (Some 0, CHUNK_OK) else slot_record rf r0 el k)"
      by (simp add: stored_def)
  qed
  have excl: "dels = [] \<or> entities_prob r' = 0"
    unfolding dels prob by simp
  have step: "\<forall>st k n. slot_record rf (s_r st) el k = Some (n, CHUNK_TOO_MANY_ENTITIES) \<longrightarrow>
               scan_slot rf el de k st =
                 Inr (if de then
                        st\<lparr>s_r := (s_r st)\<lparr>chunks := (chunks (s_r st))(k \<mapsto> (Some 0, CHUNK_OK))\<rparr>,
                           s_chunk_count := s_chunk_count st + 1,
                           s_deleted := s_deleted st @ [k]\<rparr>
                      else
                        st\<lparr>s_r := (s_r st)\<lparr>chunks :=
                                     (chunks (s_r st))(k \<mapsto> (n, CHUNK_TOO_MANY_ENTITIES))\<rparr>,
                           s_chunk_count := s_chunk_count st + 1,
                           s_entities_prob := s_entities_prob st + 1\<rparr>)"
    by (intro allI impI) (simp add: scan_slot_stored stored_def)
  from dels prob rec excl step show ?thesis
    by (intro conjI)
qed

text \<open>
  The scan of the example with the limit 2, where the slot (0, 1) has three entities,
  with deletion and without.
\<close>

theorem too_many_entities_deleted_or_counted_witness:
  "(\<exists>r' dels. scan_region_file (ex_world (Inr ex_region_file)) ex_r 2 True
                 = (Return (Result r'), dels)
       \<and> dels = [(0, 1)] \<and> entities_prob r' = 0
       \<and> chunks r' (0, 1) = Some (Some 0, CHUNK_OK))
   \<and> (\<exists>r' dels. scan_region_file (ex_world (Inr ex_region_file)) ex_r 2 False
                 = (Return (Result r'), dels)
       \<and> dels = [] \<and> entities_prob r' = 1
       \<and> chunks r' (0, 1) = Some (Some 3, CHUNK_TOO_MANY_ENTITIES))"
proof -
  let ?w = "ex_world (Inr ex_region_file)"
  have o: "w_open ?w (path ex_r) = Inr ex_region_file"
    by (simp add: ex_world_def)
  have gc: "get_chunk ex_region_file k = ex_get_chunk k" for k
    by (simp add: ex_region_file_def)
  have g: "get_coords ex_r = (0, 0)"
    by (simp add: ex_r_def)
  have m: "(0, 1) \<in> set raster"
    by (simp add: set_raster)
  have s: "slot_status ex_region_file ex_r 2 (0, 1) = Some CHUNK_TOO_MANY_ENTITIES"
    unfolding slot_status_def ex_slot_01 [OF gc g] by simp
  have main: "\<exists>r' dels. scan_region_file ?w ex_r 2 de = (Return (Result r'), dels)
       \<and> dels = (if de then [(0, 1)] else [])
       \<and> entities_prob r' = (if de then 0 else 1)
       \<and> chunks r' (0, 1) = (if de then Some (Some 0, CHUNK_OK)
                             else Some (Some 3, CHUNK_TOO_MANY_ENTITIES))" for de
  proof -
    have l: "scan_loop ex_region_file 2 de raster (init_state ex_r) = Inr (ex_state de)"
      by (rule ex_scan_loop) (simp add: ex_region_file_def)
    have st: "\<forall>km\<in>set (metadata ex_region_file). snd km = STATUS_CHUNK_OVERLAPPING
                \<longrightarrow> chunks (s_r (ex_state de)) (fst km) \<noteq> None"
      by (simp add: ex_region_file_def ex_metadata_def ex_state_def ex_r_def)
    have "\<exists>r'. scan_region_file ?w ex_r 2 de = (Return (Result r'), s_deleted (ex_state de))"
      by (intro exI, rule scan_region_file_Result [OF o l st])
    then obtain r' where
      res: "scan_region_file ?w ex_r 2 de = (Return (Result r'), s_deleted (ex_state de))" ..
    from too_many_entities_deleted_or_counted [OF o res]
    have "s_deleted (ex_state de) = (if de then [(0, 1)] else [])"
      and "entities_prob r' = (if de then 0 else 1)"
      and "chunks r' (0, 1) = (if de then Some (Some 0, CHUNK_OK) else slot_record ex_region_file ex_r 2 (0, 1))"
      unfolding ex_many using m s by simp_all
    with res show ?thesis
      unfolding ex_slot_01 [OF gc g] by blast
  qed
  from main [of True] main [of False] show ?thesis
    by simp
qed

subsection \<open>Absent slots\<close>

text \<open>
  C6: \<open>scan_chunk\<close> ends with the status \<open>CHUNK_NOT_CREATED\<close> exactly for the slots whose
  decoding raises \<open>InconceivedChunk\<close>; for these it returns no chunk and no record, and
  the loop body of \<open>scan_region_file\<close> leaves the scanned object and the counters as
  they are. Hence, in the object that a scan returns for an object created without
  chunks: among the 1024 local coordinates, the ones without a stored record are
  exactly the absent slots; no other coordinate has a record; every stored record has
  one of the statuses \<open>CHUNK_OK\<close>, \<open>CHUNK_CORRUPTED\<close>, \<open>CHUNK_WRONG_LOCATED\<close>,
  \<open>CHUNK_TOO_MANY_ENTITIES\<close>, \<open>CHUNK_SHARED_OFFSET\<close>, never \<open>CHUNK_NOT_CREATED\<close>; and
  \<open>chunk_count\<close> is the number of the slots that are not absent.
\<close>

theorem absent_slots_are_not_stored:
  assumes "w_open w (path r0) = Inr rf"
    and "scan_region_file w r0 el de = (Return (Result r'), dels)"
    and "chunks r0 = Map.empty"
  shows "(\<forall>k g. (\<exists>l. scan_chunk_locals rf k g el = Inr l \<and> l_status l = CHUNK_NOT_CREATED)
                  = absent rf k)
         \<and> (\<forall>k g. absent rf k \<longrightarrow> scan_chunk rf k g el = Inr (None, None))
         \<and> (\<forall>k st. absent rf k \<longrightarrow> scan_slot rf el de k st = Inr st)
         \<and> (\<forall>x<32. \<forall>z<32. (chunks r' (x, z) = None) = absent rf (x, z))
         \<and> (\<forall>x z. chunks r' (x, z) \<noteq> None \<longrightarrow> x < 32 \<and> z < 32)
         \<and> (\<forall>k c. chunks r' k = Some c \<longrightarrow>
               snd c \<in> {CHUNK_OK, CHUNK_CORRUPTED, CHUNK_WRONG_LOCATED,
                         CHUNK_TOO_MANY_ENTITIES, CHUNK_SHARED_OFFSET})
         \<and> chunk_count r' = length (filter (\<lambda>k. \<not> absent rf k) raster)"
proof -
  from scan_region_file_Result_cases [OF assms(1,2)] obtain st where
    st: "scan_loop rf el de raster (init_state r0) = Inr st"
    and ch: "chunks r' =
               (\<lambda>k. if k \<in> fst ` {km \<in> set (metadata rf). shares (s_r st) km}
                    then map_option (\<lambda>c. (fst c, CHUNK_SHARED_OFFSET)) (chunks (s_r st) k)
                    else chunks (s_r st) k)"
    and cc: "chunk_count r' = s_chunk_count st"
    by blast
  have h: "scan_chunk rf k g el \<noteq> Inl e" if "k \<in> set raster" for k g e
    using st that by (rule scan_loop_no_raise)
  have rec: "(slot_record rf r0 el k = None) = absent rf k" if "k \<in> set raster" for k
    by (rule slot_record_None_iff) (rule h [OF that])
  have lp: "chunks (s_r st) k =
              (if k \<in> set raster then map_option (stored de) (slot_record rf r0 el k) else None)"
    for k
    using scan_loop_chunks [OF st, of k]
    by (simp add: init_state_def assms(3) split: option.splits)
  have none: "(chunks r' k = None) = (chunks (s_r st) k = None)" for k
    by (simp add: ch)
  have p1: "\<forall>k g. (\<exists>l. scan_chunk_locals rf k g el = Inr l \<and> l_status l = CHUNK_NOT_CREATED)
                  = absent rf k"
    by (simp add: scan_chunk_locals_NOT_CREATED)
  have p2: "\<forall>k g. absent rf k \<longrightarrow> scan_chunk rf k g el = Inr (None, None)"
    by (simp add: scan_chunk_None_iff)
  have p3: "\<forall>k st. absent rf k \<longrightarrow> scan_slot rf el de k st = Inr st"
    by (simp add: scan_slot_absent)
  have p4: "\<forall>x<32. \<forall>z<32. (chunks r' (x, z) = None) = absent rf (x, z)"
  proof (intro allI impI)
    fix x z :: nat
    assume "x < 32" "z < 32"
    then have k: "(x, z) \<in> set raster"
      by (simp add: set_raster)
    show "(chunks r' (x, z) = None) = absent rf (x, z)"
      unfolding none lp using k rec [OF k] by simp
  qed
  have p5: "\<forall>x z. chunks r' (x, z) \<noteq> None \<longrightarrow> x < 32 \<and> z < 32"
  proof (intro allI impI)
    fix x z :: nat
    assume "chunks r' (x, z) \<noteq> None"
    then have "chunks (s_r st) (x, z) \<noteq> None"
      by (simp add: none)
    then have "(x, z) \<in> set raster"
      unfolding lp by (simp split: if_splits)
    then show "x < 32 \<and> z < 32"
      by (simp add: set_raster)
  qed
  have p6: "\<forall>k c. chunks r' k = Some c \<longrightarrow>
               snd c \<in> {CHUNK_OK, CHUNK_CORRUPTED, CHUNK_WRONG_LOCATED,
                         CHUNK_TOO_MANY_ENTITIES, CHUNK_SHARED_OFFSET}"
  proof (intro allI impI)
    fix k c
    assume a: "chunks r' k = Some c"
    show "snd c \<in> {CHUNK_OK, CHUNK_CORRUPTED, CHUNK_WRONG_LOCATED,
                         CHUNK_TOO_MANY_ENTITIES, CHUNK_SHARED_OFFSET}"
    proof (cases "k \<in> fst ` {km \<in> set (metadata rf). shares (s_r st) km}")
      case True
      with a show ?thesis
        by (auto simp: ch)
    next
      case False
      with a have "chunks (s_r st) k = Some c"
        by (simp add: ch)
      then obtain c0 where c0: "slot_record rf r0 el k = Some c0" "c = stored de c0"
        unfolding lp by (auto split: if_splits)
      from slot_record_status [OF c0(1)] show ?thesis
        unfolding c0(2) stored_status by auto
    qed
  qed
  have p7: "chunk_count r' = length (filter (\<lambda>k. \<not> absent rf k) raster)"
  proof -
    have "filter (\<lambda>k. slot_record rf r0 el k \<noteq> None) raster = filter (\<lambda>k. \<not> absent rf k) raster"
      by (rule filter_cong) (simp_all add: rec)
    with scan_loop_chunk_count [OF st] show ?thesis
      by (simp add: cc init_state_def)
  qed
  from p1 p2 p3 p4 p5 p6 p7 show ?thesis
    by (intro conjI)
qed

text \<open>
  The scan of the example: the slots (0, 0) to (0, 4) are stored, the absent slots
  (0, 5) and (31, 31) are not, and five chunks are counted.
\<close>

theorem absent_slots_are_not_stored_witness:
  "\<exists>r' dels. scan_region_file (ex_world (Inr ex_region_file)) ex_r 2 False
                = (Return (Result r'), dels)
     \<and> absent ex_region_file (0, 5) \<and> chunks r' (0, 5) = None
     \<and> absent ex_region_file (31, 31) \<and> chunks r' (31, 31) = None
     \<and> \<not> absent ex_region_file (0, 2) \<and> chunks r' (0, 2) \<noteq> None
     \<and> chunks r' (40, 0) = None
     \<and> chunk_count r' = 5"
proof -
  let ?w = "ex_world (Inr ex_region_file)"
  have o: "w_open ?w (path ex_r) = Inr ex_region_file"
    by (simp add: ex_world_def)
  have e: "chunks ex_r = Map.empty"
    by (simp add: ex_r_def)
  have l: "scan_loop ex_region_file 2 False raster (init_state ex_r) = Inr (ex_state False)"
    by (rule ex_scan_loop) (simp add: ex_region_file_def)
  have st: "\<forall>km\<in>set (metadata ex_region_file). snd km = STATUS_CHUNK_OVERLAPPING
                \<longrightarrow> chunks (s_r (ex_state False)) (fst km) \<noteq> None"
    by (simp add: ex_region_file_def ex_metadata_def ex_state_def ex_r_def)
  have "\<exists>r'. scan_region_file ?w ex_r 2 False = (Return (Result r'), s_deleted (ex_state False))"
    by (intro exI, rule scan_region_file_Result [OF o l st])
  then obtain r' where
    res: "scan_region_file ?w ex_r 2 False = (Return (Result r'), s_deleted (ex_state False))" ..
  have ab: "absent ex_region_file (0, 5)" "absent ex_region_file (31, 31)"
    "\<not> absent ex_region_file (0, 2)"
    by (simp_all add: absent_def ex_region_file_def ex_get_chunk_def ex_exc_def)
  note t = absent_slots_are_not_stored [OF o res e]
  from t have p4: "\<forall>x<32. \<forall>z<32. (chunks r' (x, z) = None) = absent ex_region_file (x, z)"
    by blast
  from t have p5: "\<forall>x z. chunks r' (x, z) \<noteq> None \<longrightarrow> x < 32 \<and> z < 32"
    by blast
  from t have p7: "chunk_count r' = length (filter (\<lambda>k. \<not> absent ex_region_file k) raster)"
    by blast
  have a: "chunks r' (0, 5) = None" "chunks r' (31, 31) = None" "chunks r' (0, 2) \<noteq> None"
    using p4 [rule_format, of 0 5] p4 [rule_format, of 31 31] p4 [rule_format, of 0 2] ab
    by simp_all
  have b: "chunks r' (40, 0) = None"
  proof (rule ccontr)
    assume "chunks r' (40, 0) \<noteq> None"
    with p5 have "(40::nat) < 32" by blast
    then show False by simp
  qed
  have r: "filter (\<lambda>k. \<not> absent ex_region_file k) ex_rest = []"
    using ex_rest_absent [of ex_region_file]
    by (simp add: filter_empty_conv ex_region_file_def)
  have c: "chunk_count r' = 5"
    unfolding p7 raster_split filter_append r ex_prefix_def
    by (simp add: absent_def ex_region_file_def ex_get_chunk_def ex_exc_def)
  from res ab a b c show ?thesis
    by blast
qed

subsection \<open>The end of the stream of results\<close>

lemma results_inv_step:
  assumes "g_pc s = AtEmpty \<longrightarrow> a_ready (g_self s)"
    and "g_pc s \<noteq> Failed \<longrightarrow> map Result (g_yielded s) @ a_queue (g_self s) = items"
  shows "(g_pc (apply_event ev s) = AtEmpty \<longrightarrow> a_ready (g_self (apply_event ev s)))
         \<and> (g_pc (apply_event ev s) \<noteq> Failed \<longrightarrow>
              map Result (g_yielded (apply_event ev s)) @ a_queue (g_self (apply_event ev s))
                = items @ puts [ev])"
proof (cases ev)
  case (WorkerPut r)
  with assms show ?thesis
    by (simp add: q_put_def)
next
  case PoolReady
  with assms show ?thesis
    by simp
next
  case Consumer
  show ?thesis
  proof (cases "g_pc s")
    case AtGet
    show ?thesis
    proof (cases "a_queue (g_self s)")
      case Nil
      with assms AtGet Consumer show ?thesis
        by (simp add: results_next_def Let_def q_get_def)
    next
      case (Cons r q')
      with assms AtGet Consumer show ?thesis
        by (cases r) (auto simp: results_next_def Let_def q_get_def)
    qed
  qed (use assms Consumer in \<open>auto simp: results_next_def Let_def q_empty_def\<close>)
qed

lemma results_inv_run:
  assumes "g_pc s = AtEmpty \<longrightarrow> a_ready (g_self s)"
    and "g_pc s \<noteq> Failed \<longrightarrow> map Result (g_yielded s) @ a_queue (g_self s) = items"
  shows "(g_pc (run evs s) = AtEmpty \<longrightarrow> a_ready (g_self (run evs s)))
         \<and> (g_pc (run evs s) \<noteq> Failed \<longrightarrow>
              map Result (g_yielded (run evs s)) @ a_queue (g_self (run evs s))
                = items @ puts evs)"
  using assms
proof (induction evs arbitrary: s items)
  case Nil
  then show ?case by simp
next
  case (Cons ev evs)
  have p: "puts (ev # evs) = puts [ev] @ puts evs"
    by (cases ev) simp_all
  from results_inv_step [OF Cons.prems, of ev]
  have a: "g_pc (apply_event ev s) = AtEmpty \<longrightarrow> a_ready (g_self (apply_event ev s))"
    and b: "g_pc (apply_event ev s) \<noteq> Failed \<longrightarrow>
              map Result (g_yielded (apply_event ev s)) @ a_queue (g_self (apply_event ev s))
                = items @ puts [ev]"
    by blast+
  from Cons.IH [OF a b] show ?case
    by (simp add: p)
qed

lemma results_next_Done:
  assumes "g_pc s \<noteq> Done" and "g_pc (results_next s) = Done"
  shows "g_pc s = AtEmpty \<and> a_queue (g_self s) = []"
  using assms
  by (cases "g_pc s")
    (auto simp: results_next_def Let_def q_empty_def q_get_def
      split: if_splits option.splits prod.splits queue_item.splits)

text \<open>
  C9: \<open>finished\<close> is true exactly when the pool's result is ready and the queue is
  empty, and the condition of the loop of \<open>results\<close> is: the queue is not empty, or
  the scanner is not finished. Evaluated by the generator without an event in between,
  the loop ends exactly when this condition is false. In every schedule of worker,
  pool and consumer events, at the step in which the generator leaves its loop the
  pool's result is ready, the queue is empty, and every item that was in the queue or
  was put into it up to that moment has been yielded, the items put after the pool
  became ready among them.
\<close>

theorem results_ends_only_on_empty_queue:
  "finished self = (a_ready self \<and> a_queue self = [])
   \<and> results_cond self = (a_queue self \<noteq> [] \<or> \<not> finished self)
   \<and> (g_pc s = AtWhile \<longrightarrow>
        (g_pc (run [Consumer, Consumer, Consumer] s) = Done) = (\<not> results_cond (g_self s)))
   \<and> (\<forall>evs. g_pc (run evs (results_start self)) \<noteq> Done
              \<and> g_pc (results_next (run evs (results_start self))) = Done \<longrightarrow>
              a_ready (g_self (run evs (results_start self)))
              \<and> a_queue (g_self (run evs (results_start self))) = []
              \<and> map Result (g_yielded (run evs (results_start self))) = a_queue self @ puts evs)"
proof -
  have a: "finished self = (a_ready self \<and> a_queue self = [])"
    by (simp add: finished_def q_empty_def)
  have b: "results_cond self = (a_queue self \<noteq> [] \<or> \<not> finished self)"
    by (simp add: results_cond_def q_empty_def)
  have c: "g_pc s = AtWhile \<longrightarrow>
        (g_pc (run [Consumer, Consumer, Consumer] s) = Done) = (\<not> results_cond (g_self s))"
    by (cases "a_queue (g_self s) = []"; cases "a_ready (g_self s)")
      (simp_all add: results_next_def Let_def q_empty_def results_cond_def finished_def)
  have d: "\<forall>evs. g_pc (run evs (results_start self)) \<noteq> Done
              \<and> g_pc (results_next (run evs (results_start self))) = Done \<longrightarrow>
              a_ready (g_self (run evs (results_start self)))
              \<and> a_queue (g_self (run evs (results_start self))) = []
              \<and> map Result (g_yielded (run evs (results_start self))) = a_queue self @ puts evs"
  proof (intro allI impI)
    fix evs
    let ?t = "run evs (results_start self)"
    assume h: "g_pc ?t \<noteq> Done \<and> g_pc (results_next ?t) = Done"
    then have e: "g_pc ?t = AtEmpty" "a_queue (g_self ?t) = []"
      using results_next_Done [of ?t] by blast+
    have i1: "g_pc (results_start self) = AtEmpty \<longrightarrow> a_ready (g_self (results_start self))"
      and i2: "g_pc (results_start self) \<noteq> Failed \<longrightarrow>
           map Result (g_yielded (results_start self)) @ a_queue (g_self (results_start self))
             = a_queue self"
      by (simp_all add: results_start_def)
    from results_inv_run [OF i1 i2, of evs] e
    show "a_ready (g_self ?t) \<and> a_queue (g_self ?t) = []
            \<and> map Result (g_yielded ?t) = a_queue self @ puts evs"
      by simp
  qed
  from a b c d show ?thesis
    by (intro conjI)
qed

text \<open>
  In the example schedule the worker puts its result after the pool became ready; at
  the end of the schedule the generator is at the last test of \<open>finished\<close>, its next
  step ends the loop, and the result has been yielded.
\<close>

theorem results_ends_only_on_empty_queue_witness:
  "g_pc (run ex_schedule (results_start (ex_scanner []))) = AtEmpty
   \<and> g_pc (results_next (run ex_schedule (results_start (ex_scanner [])))) = Done
   \<and> puts ex_schedule = [Result ex_r]
   \<and> g_yielded (run ex_schedule (results_start (ex_scanner []))) = [ex_r]
   \<and> a_ready (g_self (run ex_schedule (results_start (ex_scanner []))))
   \<and> a_queue (g_self (run ex_schedule (results_start (ex_scanner [])))) = []
   \<and> results_cond (ex_scanner [])
   \<and> \<not> finished (ex_scanner [])"
proof -
  let ?t = "run ex_schedule (results_start (ex_scanner []))"
  have pc: "g_pc ?t = AtEmpty"
    by (simp add: ex_schedule_def results_start_def ex_scanner_def results_next_def Let_def
        q_empty_def q_get_def q_put_def)
  have nx: "g_pc (results_next ?t) = Done"
    by (simp add: ex_schedule_def results_start_def ex_scanner_def results_next_def Let_def
        q_empty_def q_get_def q_put_def)
  have p: "puts ex_schedule = [Result ex_r]"
    by (simp add: ex_schedule_def)
  have q0: "a_queue (ex_scanner []) = []" "\<not> a_ready (ex_scanner [])"
    by (simp_all add: ex_scanner_def)
  note t = results_ends_only_on_empty_queue [of "ex_scanner []" "results_start (ex_scanner [])"]
  from t have d: "g_pc ?t \<noteq> Done \<and> g_pc (results_next ?t) = Done \<longrightarrow>
              a_ready (g_self ?t) \<and> a_queue (g_self ?t) = []
              \<and> map Result (g_yielded ?t) = a_queue (ex_scanner []) @ puts ex_schedule"
    by blast
  from t have f: "finished (ex_scanner []) = (a_ready (ex_scanner []) \<and> a_queue (ex_scanner []) = [])"
    and c: "results_cond (ex_scanner []) = (a_queue (ex_scanner []) \<noteq> [] \<or> \<not> finished (ex_scanner []))"
    by blast+
  from d pc nx have r: "a_ready (g_self ?t)" "a_queue (g_self ?t) = []"
    "map Result (g_yielded ?t) = [Result ex_r]"
    by (simp_all add: q0 p)
  from r(3) have y: "g_yielded ?t = [ex_r]"
    by (cases "g_yielded ?t") auto
  have nf: "\<not> finished (ex_scanner [])"
    unfolding f using q0 by simp
  have rc: "results_cond (ex_scanner [])"
    unfolding c using nf by simp
  from pc nx p y r(1,2) rc nf show ?thesis
    by (intro conjI)
qed

end
